theory Spec2Isabelle
  imports Main
begin

section \<open>Python values\<close>

text \<open>
  The values an event payload (a decoded JSON object) can hold. \<open>None\<close>, booleans,
  integers and strings are modelled exactly. Every other JSON value (a float, an array,
  an object) is kept as \<open>POther t r\<close>: what the handlers observe of it, its truth value
  \<open>t\<close> and its \<open>str()\<close> rendering \<open>r\<close>.
\<close>

datatype pyval = PNone | PBool bool | PInt int | PStr string | POther bool string

type_synonym pydict = "string \<rightharpoonup> pyval"

fun py_truthy :: "pyval \<Rightarrow> bool" where
  "py_truthy PNone = False"
| "py_truthy (PBool b) = b"
| "py_truthy (PInt i) = (i \<noteq> 0)"
| "py_truthy (PStr s) = (s \<noteq> [])"
| "py_truthy (POther t r) = t"

text \<open>Truth value of an \<open>Optional[str]\<close>: \<open>None\<close> and the empty string are false.\<close>

fun str_truthy :: "string option \<Rightarrow> bool" where
  "str_truthy None = False"
| "str_truthy (Some s) = (s \<noteq> [])"

definition digit_char :: "nat \<Rightarrow> char" where
  "digit_char d = ''0123456789'' ! d"

fun show_nat :: "nat \<Rightarrow> string" where
  "show_nat n = (if n < 10 then [digit_char n] else show_nat (n div 10) @ [digit_char (n mod 10)])"

declare show_nat.simps [simp del]

definition show_int :: "int \<Rightarrow> string" where
  "show_int i = (if i < 0 then CHR ''-'' # show_nat (nat (- i)) else show_nat (nat i))"

text \<open>\<open>str(v)\<close>, as an f-string renders \<open>{v}\<close>.\<close>

fun py_str :: "pyval \<Rightarrow> string" where
  "py_str PNone = ''None''"
| "py_str (PBool b) = (if b then ''True'' else ''False'')"
| "py_str (PInt i) = show_int i"
| "py_str (PStr s) = s"
| "py_str (POther t r) = r"

text \<open>\<open>d.get(k)\<close> and \<open>d.get(k, default)\<close>.\<close>

definition dict_get :: "pydict \<Rightarrow> string \<Rightarrow> pyval" where
  "dict_get d k = (case d k of None \<Rightarrow> PNone | Some v \<Rightarrow> v)"

definition dict_get_default :: "pydict \<Rightarrow> string \<Rightarrow> pyval \<Rightarrow> pyval" where
  "dict_get_default d k dflt = (case d k of None \<Rightarrow> dflt | Some v \<Rightarrow> v)"

text \<open>
  \<open>s.replace(old, new)\<close>: the occurrences of \<open>old\<close> are replaced from left to right
  without overlap; for an empty \<open>old\<close>, \<open>new\<close> is put before every character and at
  the end.
\<close>

function replace :: "string \<Rightarrow> string \<Rightarrow> string \<Rightarrow> string" where
  "replace old new [] = (if old = [] then new else [])"
| "replace old new (c # cs) =
     (if old = [] then new @ c # replace old new cs
      else if take (length old) (c # cs) = old
        then new @ replace old new (drop (length old) (c # cs))
      else c # replace old new cs)"
  by pat_completeness auto
termination
  by (relation "measure (\<lambda>(old, new, s). length s)") auto

section \<open>Models (app/models/notification.py)\<close>

text \<open>
  The rows of the tables \<open>notifications\<close> and \<open>notification_preferences\<close>. Timestamps are
  integers (seconds). The columns \<open>id\<close>, \<open>type\<close> and \<open>data\<close> of a
  notification are the fields \<open>n_id\<close>, \<open>n_type\<close> and \<open>n_data\<close>; the columns of a
  preference that share a name with a notification's carry the prefix \<open>pref_\<close>.
\<close>

record notification =
  n_id :: int
  user_id :: "string option"
  n_type :: string
  channel :: string
  subject :: "string option"
  content :: string
  status :: string
  error_message :: "string option"
  n_data :: "pydict option"
  created_at :: int
  updated_at :: int
  sent_at :: "int option"
  read_at :: "int option"

record notification_preference =
  pref_id :: int
  pref_user_id :: string
  pref_channel :: string
  enabled :: bool
  email :: "string option"
  phone :: "string option"
  webhook_url :: "string option"
  pref_settings :: "pydict option"
  pref_created_at :: int
  pref_updated_at :: int

section \<open>Configuration (app/core/config.py)\<close>

record settings =
  NOTIFICATION_CHANNEL :: string
  SMTP_HOST :: string
  SMTP_PORT :: int
  SMTP_USER :: "string option"
  SMTP_PASSWORD :: "string option"
  EMAIL_FROM :: "string option"
  EMAIL_FROM_NAME :: string
  ADMIN_EMAIL :: "string option"
  NOTIFICATION_BATCH_SIZE :: int
  NOTIFICATION_PROCESSING_INTERVAL :: int

section \<open>The world outside the functions\<close>

text \<open>
  An exception is a value. \<open>Exception m\<close> is any exception whose \<open>str()\<close> is \<open>m\<close>;
  \<open>HTTPException c d\<close> is the one the routes raise, with status code and detail.
\<close>

datatype exn = Exception string | HTTPException nat string

fun str_exn :: "exn \<Rightarrow> string" where
  "str_exn (Exception m) = m"
| "str_exn (HTTPException c d) = d"

text \<open>The message handed to the SMTP transport, and the call of \<open>aiosmtplib.send\<close>.\<close>

record email_message =
  msg_from :: string
  msg_to :: string
  msg_subject :: "string option"
  msg_cc :: "string option"
  msg_text :: string
  msg_html :: string

record smtp_call =
  sc_message :: email_message
  sc_hostname :: string
  sc_port :: int
  sc_username :: "string option"
  sc_password :: "string option"
  sc_use_tls :: bool

text \<open>
  The state the functions act on: the two tables (rows in storage order) and the serial
  of notification ids, the clock read by \<open>datetime.utcnow()\<close> and by the server default
  \<open>now()\<close>, and the traces of what was handed to collaborators: the calls of
  \<open>email_provider.send_email\<close> (recipient, subject, HTML body), the calls of
  \<open>aiosmtplib.send\<close>, and the durations passed to \<open>asyncio.sleep\<close>.

  \<open>db_script\<close> and \<open>smtp_script\<close> say how the next operations of the database session
  (\<open>execute\<close>, \<open>commit\<close>, \<open>refresh\<close>) and of the SMTP transport end: each operation takes
  the head of its script, \<open>None\<close> (or an empty script) for success and \<open>Some m\<close> for an
  exception with message \<open>m\<close>. Objects stay loaded after a commit (the session factory of
  \<open>app/db/postgresql.py\<close> is taken to set \<open>expire_on_commit=False\<close>).

  \<open>session_invalid\<close> is the state of the session in use. An operation that fails leaves
  the transaction of the session invalid, and until \<open>rollback()\<close> is called every further
  operation of that session raises (SQLAlchemy's \<open>PendingRollbackError\<close>) without reaching
  the database. No function of the source calls \<open>rollback()\<close>; a new session starts valid.

  \<open>log_lines\<close> keeps, of the log, the two lines that \<open>send_notification\<close> writes about a
  record (lines 199 and 202): they tell which records were handled, and in which order.
  The other log lines are not kept.
\<close>

datatype log_line = Processed int string | SendError int string

fun log_id :: "log_line \<Rightarrow> int" where
  "log_id (Processed i s) = i"
| "log_id (SendError i m) = i"

record world =
  notifications :: "notification list"
  notifications_seq :: int
  preferences :: "notification_preference list"
  now :: int
  db_script :: "string option list"
  smtp_script :: "string option list"
  send_email_calls :: "(string \<times> string option \<times> string) list"
  smtp_sends :: "smtp_call list"
  sleeps :: "int list"
  session_invalid :: bool
  log_lines :: "log_line list"

definition PendingRollbackError :: exn where
  "PendingRollbackError = Exception ''PendingRollbackError''"

text \<open>\<open>AsyncSessionLocal()\<close>, and the session that \<open>get_db\<close> hands to a route: a new session.\<close>

definition AsyncSessionLocal :: "world \<Rightarrow> world" where
  "AsyncSessionLocal w = w\<lparr>session_invalid := False\<rparr>"

text \<open>One operation of the session: \<open>execute\<close>, \<open>commit\<close> or \<open>refresh\<close>.\<close>

definition db_op :: "world \<Rightarrow> (exn + unit) \<times> world" where
  "db_op w =
     (if session_invalid w then (Inl PendingRollbackError, w)
      else
        (case db_script w of
           [] \<Rightarrow> (Inr (), w)
         | None # s \<Rightarrow> (Inr (), w\<lparr>db_script := s\<rparr>)
         | Some m # s \<Rightarrow> (Inl (Exception m), w\<lparr>db_script := s, session_invalid := True\<rparr>)))"

definition update_row :: "notification \<Rightarrow> notification list \<Rightarrow> notification list" where
  "update_row n rows = map (\<lambda>r. if n_id r = n_id n then n else r) rows"

text \<open>
  \<open>await db.commit()\<close> with the loaded object \<open>n\<close> modified: its row is written, unless
  the commit raises.
\<close>

definition commit :: "world \<Rightarrow> notification \<Rightarrow> (exn + unit) \<times> world" where
  "commit w n =
     (case db_op w of
        (Inl e, w') \<Rightarrow> (Inl e, w')
      | (Inr u, w') \<Rightarrow> (Inr (), w'\<lparr>notifications := update_row n (notifications w')\<rparr>))"

section \<open>EmailProvider (app/services/email_provider.py)\<close>

record EmailProvider =
  host :: string
  port :: int
  username :: "string option"
  password :: "string option"
  from_email :: "string option"
  from_name :: string

definition EmailProvider_init :: "settings \<Rightarrow> EmailProvider" where
  "EmailProvider_init cfg =
     \<lparr>host = SMTP_HOST cfg, port = SMTP_PORT cfg, username = SMTP_USER cfg,
      password = SMTP_PASSWORD cfg, from_email = EMAIL_FROM cfg,
      from_name = EMAIL_FROM_NAME cfg\<rparr>"

definition join_comma :: "string list \<Rightarrow> string" where
  "join_comma xs = (case xs of [] \<Rightarrow> [] | y # ys \<Rightarrow> y @ concat (map (\<lambda>z. '', '' @ z) ys))"

definition newline :: string where
  "newline = [CHR 0x0A]"

definition text_version :: "string \<Rightarrow> string" where
  "text_version html_content =
     replace ''</p>'' newline (replace ''<p>'' newline
       (replace ''<br/>'' newline (replace ''<br>'' newline html_content)))"

definition build_message ::
  "EmailProvider \<Rightarrow> string \<Rightarrow> string option \<Rightarrow> string \<Rightarrow> string option \<Rightarrow>
     string list option \<Rightarrow> email_message" where
  "build_message self to_email subj html_content text_content cc =
     \<lparr>msg_from = from_name self @ '' <'' @ (case from_email self of None \<Rightarrow> ''None'' | Some a \<Rightarrow> a) @ ''>'',
      msg_to = to_email,
      msg_subject = subj,
      msg_cc = (case cc of None \<Rightarrow> None | Some l \<Rightarrow> if l = [] then None else Some (join_comma l)),
      msg_text = (if str_truthy text_content then (case text_content of Some t \<Rightarrow> t | None \<Rightarrow> [])
                  else text_version html_content),
      msg_html = html_content\<rparr>"

text \<open>
  \<open>send_email\<close>. The call is noted in \<open>send_email_calls\<close> first. Without credentials or
  sender address it returns \<open>False\<close> at once. Otherwise the message is built and handed
  to the transport (noted in \<open>smtp_sends\<close>); an exception of the transport is caught and
  gives \<open>False\<close>. The list \<open>recipients\<close> that the source builds from \<open>to_email\<close>, \<open>cc\<close>
  and \<open>bcc\<close> is not passed to \<open>aiosmtplib.send\<close>, so \<open>bcc\<close> has no effect.
\<close>

definition send_email ::
  "EmailProvider \<Rightarrow> string \<Rightarrow> string option \<Rightarrow> string \<Rightarrow> string option \<Rightarrow>
     string list option \<Rightarrow> string list option \<Rightarrow> world \<Rightarrow> bool \<times> world" where
  "send_email self to_email subj html_content text_content cc bcc w =
     (let w0 = w\<lparr>send_email_calls := send_email_calls w @ [(to_email, subj, html_content)]\<rparr> in
      if \<not> str_truthy (username self) \<or> \<not> str_truthy (password self)
           \<or> \<not> str_truthy (from_email self)
      then (False, w0)
      else
        (let call = \<lparr>sc_message = build_message self to_email subj html_content text_content cc,
                     sc_hostname = host self, sc_port = port self,
                     sc_username = username self, sc_password = password self,
                     sc_use_tls = True\<rparr>;
             w1 = w0\<lparr>smtp_sends := smtp_sends w0 @ [call]\<rparr>
         in case smtp_script w1 of
              [] \<Rightarrow> (True, w1)
            | None # s \<Rightarrow> (True, w1\<lparr>smtp_script := s\<rparr>)
            | Some m # s \<Rightarrow> (False, w1\<lparr>smtp_script := s\<rparr>)))"

section \<open>NotificationProcessor.send\_notification\<close>

text \<open>
  The channel branch of \<open>send_notification\<close> (lines 160 to 186): the value of
  \<open>success\<close>, or the exception of the preference query.
\<close>

definition channel_branch ::
  "EmailProvider \<Rightarrow> world \<Rightarrow> notification \<Rightarrow> (exn + bool) \<times> world" where
  "channel_branch provider w n =
     (if channel n = ''email'' then
        (if str_truthy (user_id n) then
           (case db_op w of
              (Inl e, w1) \<Rightarrow> (Inl e, w1)
            | (Inr u, w1) \<Rightarrow>
                (case find (\<lambda>p. Some (pref_user_id p) = user_id n \<and> pref_channel p = ''email'')
                        (preferences w1) of
                   None \<Rightarrow> (Inr False, w1)
                 | Some preference \<Rightarrow>
                     (if str_truthy (email preference) then
                        (case email preference of
                           None \<Rightarrow> (Inr False, w1)
                         | Some addr \<Rightarrow>
                             (case send_email provider addr (subject n) (content n) None None None w1 of
                                (ok, w2) \<Rightarrow> (Inr ok, w2)))
                      else (Inr False, w1))))
         else (Inr False, w))
      else if channel n = ''database'' then (Inr True, w)
      else (Inr False, w))"

text \<open>The \<open>try\<close> block of \<open>send_notification\<close>: the outcome, the object and the world.\<close>

definition send_notification_try ::
  "EmailProvider \<Rightarrow> world \<Rightarrow> notification \<Rightarrow> (exn + unit) \<times> notification \<times> world" where
  "send_notification_try provider w n =
     (let n1 = n\<lparr>status := ''processing'', updated_at := now w\<rparr> in
      case commit w n1 of
        (Inl e, w1) \<Rightarrow> (Inl e, n1, w1)
      | (Inr u, w1) \<Rightarrow>
          (case channel_branch provider w1 n1 of
             (Inl e, w2) \<Rightarrow> (Inl e, n1, w2)
           | (Inr success, w2) \<Rightarrow>
               (let n2 = (if success then n1\<lparr>status := ''sent'', sent_at := Some (now w2)\<rparr>
                          else n1\<lparr>status := ''failed'',
                                  error_message := Some ''Failed to send notification''\<rparr>);
                    n3 = n2\<lparr>updated_at := now w2\<rparr>
                in case commit w2 n3 of
                     (Inl e, w3) \<Rightarrow> (Inl e, n3, w3)
                   | (Inr u', w3) \<Rightarrow>
                       (Inr (), n3,
                        w3\<lparr>log_lines := log_lines w3 @ [Processed (n_id n3) (status n3)]\<rparr>))))"

text \<open>
  \<open>send_notification\<close>: the \<open>try\<close> block, and the \<open>except Exception\<close> clause, which logs
  the error, marks the object failed and commits on the same session, with no rollback;
  this \<open>commit\<close> is outside every \<open>try\<close> of the function.
\<close>

definition send_notification ::
  "EmailProvider \<Rightarrow> world \<Rightarrow> notification \<Rightarrow> (exn + unit) \<times> notification \<times> world" where
  "send_notification provider w n =
     (case send_notification_try provider w n of
        (Inr u, n', w') \<Rightarrow> (Inr (), n', w')
      | (Inl e, n', w') \<Rightarrow>
          (let wl = w'\<lparr>log_lines := log_lines w' @ [SendError (n_id n') (str_exn e)]\<rparr>;
               n'' = n'\<lparr>status := ''failed'', error_message := Some (str_exn e),
                        updated_at := now wl\<rparr>
           in case commit wl n'' of
                (Inl e', w'') \<Rightarrow> (Inl e', n'', w'')
              | (Inr u', w'') \<Rightarrow> (Inr (), n'', w'')))"

section \<open>NotificationProcessor: event intake\<close>

text \<open>
  \<open>Notification(**notification_data)\<close>: the columns that are not given are \<open>None\<close>; the
  id and the two timestamps are filled in by the database when the row is inserted.
\<close>

definition Notification ::
  "string \<Rightarrow> string \<Rightarrow> string option \<Rightarrow> string \<Rightarrow> pydict option \<Rightarrow> string \<Rightarrow> notification" where
  "Notification ty ch subj cont dat st =
     \<lparr>n_id = 0, user_id = None, n_type = ty, channel = ch, subject = subj, content = cont,
      status = st, error_message = None, n_data = dat, created_at = 0, updated_at = 0,
      sent_at = None, read_at = None\<rparr>"

text \<open>\<open>db.add(n); await db.commit()\<close>: the new row, with the next id of the serial.\<close>

definition add_commit :: "world \<Rightarrow> notification \<Rightarrow> (exn + notification) \<times> world" where
  "add_commit w n =
     (case db_op w of
        (Inl e, w') \<Rightarrow> (Inl e, w')
      | (Inr u, w') \<Rightarrow>
          (let row = n\<lparr>n_id := notifications_seq w', created_at := now w', updated_at := now w'\<rparr>
           in (Inr row, w'\<lparr>notifications := notifications w' @ [row],
                            notifications_seq := notifications_seq w' + 1\<rparr>)))"

definition low_stock_html :: "pyval \<Rightarrow> pyval \<Rightarrow> pyval \<Rightarrow> pyval \<Rightarrow> string" where
  "low_stock_html product_name product_id current_quantity threshold =
     newline @
     ''            <h2>Low Stock Alert</h2>'' @ newline @
     ''            <p>Product <strong>'' @ py_str product_name @
       ''</strong> is running low on stock.</p>'' @ newline @
     ''            <ul>'' @ newline @
     ''                <li><strong>Product ID:</strong> '' @ py_str product_id @ ''</li>'' @ newline @
     ''                <li><strong>Current Quantity:</strong> '' @ py_str current_quantity @
       ''</li>'' @ newline @
     ''                <li><strong>Threshold:</strong> '' @ py_str threshold @ ''</li>'' @ newline @
     ''            </ul>'' @ newline @
     ''            <p>Please replenish the inventory as soon as possible.</p>'' @ newline @
     ''            ''"

definition handle_low_stock_notification ::
  "settings \<Rightarrow> pydict \<Rightarrow> world \<Rightarrow> (exn + unit) \<times> world" where
  "handle_low_stock_notification cfg data w =
     (let product_id = dict_get data ''product_id'';
          product_name = dict_get_default data ''product_name'' product_id;
          current_quantity = dict_get data ''current_quantity'';
          threshold = dict_get data ''threshold''
      in if \<not> py_truthy product_id \<or> current_quantity = PNone \<or> threshold = PNone
         then (Inr (), w)
         else
           (let system_notification =
                  Notification ''low_stock'' ''database''
                    (Some (''Low Stock Alert: '' @ py_str product_name))
                    (''Product '' @ [CHR 0x27] @ py_str product_name @ [CHR 0x27] @
                       '' is running low on stock. Current quantity: '' @
                       py_str current_quantity @ '', Threshold: '' @ py_str threshold)
                    (Some data) ''pending''
            in case add_commit (AsyncSessionLocal w) system_notification of
                 (Inl e, w1) \<Rightarrow> (Inl e, w1)
               | (Inr row, w1) \<Rightarrow>
                   (case db_op w1 of
                      (Inl e, w2) \<Rightarrow> (Inl e, w2)
                    | (Inr u, w2) \<Rightarrow>
                        (if str_truthy (ADMIN_EMAIL cfg) then
                           (case ADMIN_EMAIL cfg of
                              None \<Rightarrow> (Inr (), w2)
                            | Some admin \<Rightarrow>
                                (case send_email (EmailProvider_init cfg) admin
                                        (Some (''Low Stock Alert: '' @ py_str product_name))
                                        (low_stock_html product_name product_id
                                           current_quantity threshold)
                                        None None None w2 of
                                   (success, w3) \<Rightarrow> (Inr (), w3)))
                         else (Inr (), w2)))))"

text \<open>\<open>handle_notification\<close>: the dispatch on \<open>type\<close>; every exception is caught.\<close>

definition handle_notification :: "settings \<Rightarrow> pydict \<Rightarrow> world \<Rightarrow> world" where
  "handle_notification cfg data w =
     (if dict_get data ''type'' = PStr ''low_stock''
      then snd (handle_low_stock_notification cfg data w)
      else w)"

section \<open>NotificationProcessor: the sweep\<close>

record NotificationProcessor =
  running :: bool
  batch_size :: int
  processing_interval :: int

definition NotificationProcessor_init :: "settings \<Rightarrow> NotificationProcessor" where
  "NotificationProcessor_init cfg =
     \<lparr>running = False, batch_size = NOTIFICATION_BATCH_SIZE cfg,
      processing_interval = NOTIFICATION_PROCESSING_INTERVAL cfg\<rparr>"

text \<open>
  The query of the sweep: the rows with status \<open>pending\<close>, by \<open>created_at\<close> ascending
  (rows with the same \<open>created_at\<close> in storage order), at most \<open>limit\<close> of them.
\<close>

definition select_pending :: "int \<Rightarrow> notification list \<Rightarrow> notification list" where
  "select_pending limit rows =
     take (nat limit) (sort_key created_at (filter (\<lambda>n. status n = ''pending'') rows))"

text \<open>The \<open>for\<close> loop over the batch: an exception of \<open>send_notification\<close> ends it.\<close>

fun send_all :: "EmailProvider \<Rightarrow> world \<Rightarrow> notification list \<Rightarrow> (exn + unit) \<times> world" where
  "send_all provider w [] = (Inr (), w)"
| "send_all provider w (n # ns) =
     (case send_notification provider w n of
        (Inl e, n', w') \<Rightarrow> (Inl e, w')
      | (Inr u, n', w') \<Rightarrow> send_all provider w' ns)"

text \<open>
  The \<open>try\<close> block of one iteration of \<open>process_pending_notifications\<close>, on a session of
  its own: the query (a negative limit is refused by the database), the batch, the
  closing commit.
\<close>

definition sweep_try ::
  "settings \<Rightarrow> NotificationProcessor \<Rightarrow> world \<Rightarrow> (exn + unit) \<times> world" where
  "sweep_try cfg self w =
     (case db_op (AsyncSessionLocal w) of
        (Inl e, w1) \<Rightarrow> (Inl e, w1)
      | (Inr u, w1) \<Rightarrow>
          (if batch_size self < 0 then (Inl (Exception ''LIMIT must not be negative''), w1)
           else
             (case send_all (EmailProvider_init cfg) w1
                     (select_pending (batch_size self) (notifications w1)) of
                (Inl e, w2) \<Rightarrow> (Inl e, w2)
              | (Inr u', w2) \<Rightarrow> db_op w2)))"

text \<open>\<open>await asyncio.sleep(d)\<close>: the call is noted and the clock moves on.\<close>

definition asyncio_sleep :: "int \<Rightarrow> world \<Rightarrow> world" where
  "asyncio_sleep d w = w\<lparr>sleeps := sleeps w @ [d], now := now w + max 0 d\<rparr>"

text \<open>One iteration: the \<open>try\<close> block, its \<open>except Exception\<close> (a log line), the sleep.\<close>

definition sweep_iteration :: "settings \<Rightarrow> NotificationProcessor \<Rightarrow> world \<Rightarrow> world" where
  "sweep_iteration cfg self w =
     asyncio_sleep (processing_interval self) (snd (sweep_try cfg self w))"

text \<open>
  \<open>process_pending_notifications\<close>. The flag \<open>self.running\<close> is written by \<open>start\<close> and
  \<open>stop\<close> from other tasks; \<open>flags\<close> holds the values that the successive tests
  \<open>while self.running\<close> read. The result is \<open>Some\<close> world when the loop has ended, and
  \<open>None\<close> when every test in \<open>flags\<close> was passed and the loop is still running.
\<close>

fun process_pending_notifications ::
  "settings \<Rightarrow> NotificationProcessor \<Rightarrow> bool list \<Rightarrow> world \<Rightarrow> world option" where
  "process_pending_notifications cfg self [] w = None"
| "process_pending_notifications cfg self (r # flags) w =
     (if r then process_pending_notifications cfg self flags (sweep_iteration cfg self w)
      else Some w)"

section \<open>Routes (app/api/routes/notifications.py)\<close>

definition mark_notification_read :: "int \<Rightarrow> world \<Rightarrow> (exn + notification) \<times> world" where
  "mark_notification_read notification_id w =
     (case db_op (AsyncSessionLocal w) of
        (Inl e, w1) \<Rightarrow> (Inl e, w1)
      | (Inr u, w1) \<Rightarrow>
          (case find (\<lambda>n. n_id n = notification_id) (notifications w1) of
             None \<Rightarrow>
               (Inl (HTTPException 404
                  (''Notification with ID '' @ show_int notification_id @ '' not found'')), w1)
           | Some n \<Rightarrow>
               (let n' = n\<lparr>read_at := Some (now w1), updated_at := now w1\<rparr>
                in case commit w1 n' of
                     (Inl e, w2) \<Rightarrow> (Inl e, w2)
                   | (Inr u', w2) \<Rightarrow>
                       (case db_op w2 of
                          (Inl e, w3) \<Rightarrow> (Inl e, w3)
                        | (Inr u'', w3) \<Rightarrow> (Inr n', w3)))))"

text \<open>
  \<open>mark_all_notifications_read\<close>: one \<open>UPDATE\<close> of the user's rows whose \<open>read_at\<close> is
  null, then the commit; the result is the row count.
\<close>

definition mark_all_notifications_read :: "string \<Rightarrow> world \<Rightarrow> (exn + nat) \<times> world" where
  "mark_all_notifications_read uid w =
     (let t = now w;
          hit = (\<lambda>n. user_id n = Some uid \<and> read_at n = None)
      in case db_op (AsyncSessionLocal w) of
           (Inl e, w1) \<Rightarrow> (Inl e, w1)
         | (Inr u, w1) \<Rightarrow>
             (case db_op w1 of
                (Inl e, w2) \<Rightarrow> (Inl e, w2)
              | (Inr u', w2) \<Rightarrow>
                  (Inr (length (filter hit (notifications w2))),
                   w2\<lparr>notifications :=
                        map (\<lambda>n. if hit n then n\<lparr>read_at := Some t, updated_at := t\<rparr> else n)
                          (notifications w2)\<rparr>)))"

section \<open>Auxiliary notions for the proofs\<close>

text \<open>
  The number of failures that the session has ahead: one if it is invalid already, and
  one for every operation that the script lets fail. When it is 0 every database
  operation succeeds.
\<close>

definition faults :: "world \<Rightarrow> nat" where
  "faults w = (if session_invalid w then 1 else 0) + length (filter (\<lambda>r. r \<noteq> None) (db_script w))"

text \<open>The world after one database operation has taken the head of the script.\<close>

definition db_pop :: "world \<Rightarrow> world" where
  "db_pop w = w\<lparr>db_script := tl (db_script w)\<rparr>"

text \<open>The world after a database operation has failed.\<close>

definition db_fail :: "world \<Rightarrow> world" where
  "db_fail w =
     (if session_invalid w then w else w\<lparr>db_script := tl (db_script w), session_invalid := True\<rparr>)"

text \<open>
  \<open>same_outside ids rows rows'\<close>: the two tables hold rows with the same ids at the same
  places, and differ at most in the rows whose id is in \<open>ids\<close>.
\<close>

definition same_outside :: "int set \<Rightarrow> notification list \<Rightarrow> notification list \<Rightarrow> bool" where
  "same_outside ids rows rows' =
     list_all2 (\<lambda>r r'. n_id r' = n_id r \<and> (n_id r \<notin> ids \<longrightarrow> r' = r)) rows rows'"

text \<open>
  \<open>set_enabled g w\<close>: the world \<open>w\<close> with the \<open>enabled\<close> flag of every preference \<open>q\<close> set
  to \<open>g q\<close>.
\<close>

definition set_enabled :: "(notification_preference \<Rightarrow> bool) \<Rightarrow> world \<Rightarrow> world" where
  "set_enabled g w = w\<lparr>preferences := map (\<lambda>q. q\<lparr>enabled := g q\<rparr>) (preferences w)\<rparr>"


section \<open>Example data\<close>

text \<open>
  \<open>default_settings\<close> holds the defaults of \<open>app/core/config.py\<close> (no SMTP credentials);
  \<open>smtp_settings\<close> adds credentials and a sender address.
\<close>

definition default_settings :: settings where
  "default_settings =
     \<lparr>NOTIFICATION_CHANNEL = ''inventory:low-stock'', SMTP_HOST = ''sandbox.smtp.mailtrap.io'',
      SMTP_PORT = 587, SMTP_USER = None, SMTP_PASSWORD = None, EMAIL_FROM = None,
      EMAIL_FROM_NAME = ''E-commerce Notifications'', ADMIN_EMAIL = Some ''admin@example.com'',
      NOTIFICATION_BATCH_SIZE = 10, NOTIFICATION_PROCESSING_INTERVAL = 30\<rparr>"

definition smtp_settings :: settings where
  "smtp_settings = default_settings\<lparr>SMTP_USER := Some ''mailer'', SMTP_PASSWORD := Some ''secret'',
      EMAIL_FROM := Some ''shop@example.com''\<rparr>"

definition sms_record :: notification where
  "sms_record =
     \<lparr>n_id = 1, user_id = Some ''u1'', n_type = ''order_status'', channel = ''sms'',
      subject = Some ''Order shipped'', content = ''Your order is on its way'',
      status = ''pending'', error_message = None, n_data = None, created_at = 10,
      updated_at = 10, sent_at = None, read_at = None\<rparr>"

definition sms_world :: "string option list \<Rightarrow> world" where
  "sms_world script =
     \<lparr>notifications = [sms_record], notifications_seq = 2, preferences = [], now = 1000,
      db_script = script, smtp_script = [], send_email_calls = [], smtp_sends = [],
      sleeps = [], session_invalid = False, log_lines = []\<rparr>"

definition empty_world :: world where
  "empty_world =
     \<lparr>notifications = [], notifications_seq = 1, preferences = [], now = 1000,
      db_script = [], smtp_script = [], send_email_calls = [], smtp_sends = [], sleeps = [],
      session_invalid = False, log_lines = []\<rparr>"

text \<open>The event of claim C7: a low-stock event without \<open>current_quantity\<close>.\<close>

definition event_without_quantity :: pydict where
  "event_without_quantity =
     [''type'' \<mapsto> PStr ''low_stock'', ''product_id'' \<mapsto> PStr ''P1'',
      ''product_name'' \<mapsto> PStr ''Widget'', ''threshold'' \<mapsto> PInt 5]"

text \<open>An email notification for user \<open>u1\<close>, and preferences of that user.\<close>

definition email_record :: notification where
  "email_record =
     \<lparr>n_id = 2, user_id = Some ''u1'', n_type = ''test'', channel = ''email'',
      subject = Some ''Test Notification'', content = ''<p>This is a test</p>'',
      status = ''pending'', error_message = None, n_data = None, created_at = 20,
      updated_at = 20, sent_at = None, read_at = None\<rparr>"

definition pref_no_address :: notification_preference where
  "pref_no_address =
     \<lparr>pref_id = 1, pref_user_id = ''u1'', pref_channel = ''email'', enabled = True,
      email = None, phone = None, webhook_url = None, pref_settings = None,
      pref_created_at = 5, pref_updated_at = 5\<rparr>"

definition pref_disabled :: notification_preference where
  "pref_disabled =
     \<lparr>pref_id = 1, pref_user_id = ''u1'', pref_channel = ''email'', enabled = False,
      email = Some ''u1@example.com'', phone = None, webhook_url = None, pref_settings = None,
      pref_created_at = 5, pref_updated_at = 5\<rparr>"

definition email_world :: "notification_preference list \<Rightarrow> world" where
  "email_world prefs =
     \<lparr>notifications = [email_record], notifications_seq = 3, preferences = prefs, now = 1000,
      db_script = [], smtp_script = [], send_email_calls = [], smtp_sends = [], sleeps = [],
      session_invalid = False, log_lines = []\<rparr>"



text \<open>
  The record \<open>email_record\<close> after it was marked read at time 1000, and after it was
  marked read again at time 2000.
\<close>

definition read_once :: notification where
  "read_once = email_record\<lparr>read_at := Some 1000, updated_at := 1000\<rparr>"

definition read_twice :: notification where
  "read_twice = email_record\<lparr>read_at := Some 2000, updated_at := 2000\<rparr>"

text \<open>
  The scenario of claim C6: three pending email notifications created at times 10, 20 and
  30, stored in another order, their users' preferences, and a processor with batch size 2.
\<close>

definition queue_record :: "int \<Rightarrow> string \<Rightarrow> int \<Rightarrow> notification" where
  "queue_record i u t =
     \<lparr>n_id = i, user_id = Some u, n_type = ''test'', channel = ''email'',
      subject = Some ''Test Notification'', content = ''<p>This is a test</p>'',
      status = ''pending'', error_message = None, n_data = None, created_at = t,
      updated_at = t, sent_at = None, read_at = None\<rparr>"

definition queue_pref :: "int \<Rightarrow> string \<Rightarrow> string \<Rightarrow> notification_preference" where
  "queue_pref i u a =
     \<lparr>pref_id = i, pref_user_id = u, pref_channel = ''email'', enabled = True,
      email = Some a, phone = None, webhook_url = None, pref_settings = None,
      pref_created_at = 5, pref_updated_at = 5\<rparr>"

definition queue_world :: world where
  "queue_world =
     \<lparr>notifications = [queue_record 13 ''u3'' 30, queue_record 11 ''u1'' 10,
                        queue_record 12 ''u2'' 20],
      notifications_seq = 14,
      preferences = [queue_pref 1 ''u1'' ''u1@example.com'', queue_pref 2 ''u2'' ''u2@example.com'',
                     queue_pref 3 ''u3'' ''u3@example.com''],
      now = 1000, db_script = [], smtp_script = [], send_email_calls = [], smtp_sends = [],
      sleeps = [], session_invalid = False, log_lines = []\<rparr>"

definition two_at_a_time :: NotificationProcessor where
  "two_at_a_time = \<lparr>running = True, batch_size = 2, processing_interval = 30\<rparr>"




section \<open>Facts about the operations\<close>

subsection \<open>Database operations and the script\<close>

lemma db_pop_fields [simp]:
  "notifications (db_pop w) = notifications w"
  "notifications_seq (db_pop w) = notifications_seq w"
  "preferences (db_pop w) = preferences w"
  "now (db_pop w) = now w"
  "smtp_script (db_pop w) = smtp_script w"
  "send_email_calls (db_pop w) = send_email_calls w"
  "smtp_sends (db_pop w) = smtp_sends w"
  "sleeps (db_pop w) = sleeps w"
  "session_invalid (db_pop w) = session_invalid w"
  "log_lines (db_pop w) = log_lines w"
  by (simp_all add: db_pop_def)

lemma db_fail_fields [simp]:
  "notifications (db_fail w) = notifications w"
  "notifications_seq (db_fail w) = notifications_seq w"
  "preferences (db_fail w) = preferences w"
  "now (db_fail w) = now w"
  "smtp_script (db_fail w) = smtp_script w"
  "send_email_calls (db_fail w) = send_email_calls w"
  "smtp_sends (db_fail w) = smtp_sends w"
  "sleeps (db_fail w) = sleeps w"
  "session_invalid (db_fail w) = True"
  "log_lines (db_fail w) = log_lines w"
  by (simp_all add: db_fail_def)

lemma faults_db_pop_le: "faults (db_pop w) \<le> faults w"
  by (cases "db_script w") (simp_all add: faults_def db_pop_def)

lemma faults_upd [simp]:
  "faults (w\<lparr>notifications := rows\<rparr>) = faults w"
  "faults (w\<lparr>log_lines := ls\<rparr>) = faults w"
  "faults (w\<lparr>now := t\<rparr>) = faults w"
  "faults (w\<lparr>notifications := rows, notifications_seq := k\<rparr>) = faults w"
  by (simp_all add: faults_def)

lemma AsyncSessionLocal_fields [simp]:
  "notifications (AsyncSessionLocal w) = notifications w"
  "notifications_seq (AsyncSessionLocal w) = notifications_seq w"
  "preferences (AsyncSessionLocal w) = preferences w"
  "now (AsyncSessionLocal w) = now w"
  "smtp_script (AsyncSessionLocal w) = smtp_script w"
  "send_email_calls (AsyncSessionLocal w) = send_email_calls w"
  "smtp_sends (AsyncSessionLocal w) = smtp_sends w"
  "sleeps (AsyncSessionLocal w) = sleeps w"
  "log_lines (AsyncSessionLocal w) = log_lines w"
  by (simp_all add: AsyncSessionLocal_def)

lemma AsyncSessionLocal_healthy: "faults w = 0 \<Longrightarrow> AsyncSessionLocal w = w"
  by (cases w) (simp add: AsyncSessionLocal_def faults_def split: if_splits)

lemma db_op_Inl:
  "db_op w = (Inl e, w') \<Longrightarrow> w' = db_fail w \<and> faults w' \<le> faults w \<and> 0 < faults w"
  by (cases w)
     (auto simp: db_op_def db_fail_def faults_def split: list.splits option.splits if_splits)

lemma db_op_Inr:
  "db_op w = (Inr u, w') \<Longrightarrow> w' = db_pop w \<and> faults w' \<le> faults w \<and> \<not> session_invalid w"
  by (cases w)
     (auto simp: db_op_def db_pop_def faults_def split: list.splits option.splits if_splits)

lemma db_op_healthy: "faults w = 0 \<Longrightarrow> db_op w = (Inr (), db_pop w) \<and> faults (db_pop w) = 0"
  by (cases w)
     (auto simp: db_op_def db_pop_def faults_def split: list.splits option.splits if_splits)

lemma db_op_invalid: "session_invalid w \<Longrightarrow> db_op w = (Inl PendingRollbackError, w)"
  by (simp add: db_op_def)

lemma db_op_frame:
  "db_op w = (r, w') \<Longrightarrow>
     notifications w' = notifications w \<and> notifications_seq w' = notifications_seq w \<and>
     preferences w' = preferences w \<and> now w' = now w \<and> sleeps w' = sleeps w \<and>
     smtp_script w' = smtp_script w \<and> send_email_calls w' = send_email_calls w \<and>
     smtp_sends w' = smtp_sends w \<and> log_lines w' = log_lines w \<and> faults w' \<le> faults w"
  by (cases r) (auto dest!: db_op_Inl db_op_Inr)

lemma commit_Inl:
  "commit w n = (Inl e, w') \<Longrightarrow> w' = db_fail w \<and> faults w' \<le> faults w \<and> 0 < faults w"
  by (auto simp: commit_def split: prod.splits sum.splits dest: db_op_Inl)

lemma commit_Inr:
  "commit w n = (Inr u, w') \<Longrightarrow>
     w' = (db_pop w)\<lparr>notifications := update_row n (notifications w)\<rparr> \<and> faults w' \<le> faults w"
  by (auto simp: commit_def split: prod.splits sum.splits dest!: db_op_Inr)

lemma commit_healthy:
  "faults w = 0 \<Longrightarrow>
     commit w n = (Inr (), (db_pop w)\<lparr>notifications := update_row n (notifications w)\<rparr>)"
  by (simp add: commit_def db_op_healthy)

lemma commit_invalid: "session_invalid w \<Longrightarrow> commit w n = (Inl PendingRollbackError, w)"
  by (simp add: commit_def db_op_invalid)

lemma commit_frame:
  "commit w n = (r, w') \<Longrightarrow>
     notifications_seq w' = notifications_seq w \<and>
     preferences w' = preferences w \<and> now w' = now w \<and> sleeps w' = sleeps w \<and>
     smtp_script w' = smtp_script w \<and> send_email_calls w' = send_email_calls w \<and>
     smtp_sends w' = smtp_sends w \<and> log_lines w' = log_lines w \<and> faults w' \<le> faults w"
  by (cases r) (auto dest!: commit_Inl commit_Inr)

lemma send_email_fields:
  "send_email self t s h tx cc bcc w = (ok, w') \<Longrightarrow>
     notifications w' = notifications w \<and> notifications_seq w' = notifications_seq w \<and>
     preferences w' = preferences w \<and> now w' = now w \<and> db_script w' = db_script w \<and>
     sleeps w' = sleeps w \<and> send_email_calls w' = send_email_calls w @ [(t, s, h)] \<and>
     session_invalid w' = session_invalid w \<and> log_lines w' = log_lines w \<and>
     faults w' = faults w"
  by (auto simp: send_email_def Let_def faults_def split: if_splits list.splits option.splits)

subsection \<open>Tables that differ at given ids only\<close>

lemma same_outside_refl: "same_outside ids rows rows"
  by (simp add: same_outside_def list_all2_same)

lemma same_outside_trans:
  "same_outside ids a b \<Longrightarrow> same_outside ids b c \<Longrightarrow> same_outside ids a c"
  unfolding same_outside_def
  by (rule list_all2_trans[of _ _ _ a b c]) auto

lemma same_outside_mono: "same_outside ids a b \<Longrightarrow> ids \<subseteq> ids' \<Longrightarrow> same_outside ids' a b"
  unfolding same_outside_def by (erule list_all2_mono) auto

lemma same_outside_update_row: "n_id n \<in> ids \<Longrightarrow> same_outside ids rows (update_row n rows)"
  by (induction rows) (auto simp: same_outside_def update_row_def)

subsection \<open>\<open>send_notification\<close>: what it keeps, when it raises\<close>

lemma channel_branch_frame:
  "channel_branch p w n = (r, w') \<Longrightarrow>
     notifications w' = notifications w \<and> notifications_seq w' = notifications_seq w \<and>
     preferences w' = preferences w \<and> now w' = now w \<and> sleeps w' = sleeps w \<and>
     log_lines w' = log_lines w \<and> faults w' \<le> faults w \<and>
     (\<forall>e. r = Inl e \<longrightarrow> session_invalid w' \<and> 0 < faults w)"
  by (auto simp: channel_branch_def
        split: if_splits prod.splits sum.splits option.splits
        dest!: db_op_Inl db_op_Inr send_email_fields)

lemma channel_branch_other:
  "channel n \<noteq> ''email'' \<Longrightarrow> channel_branch p w n = (Inr (channel n = ''database''), w)"
  by (simp add: channel_branch_def)


lemma update_row_twice: "n_id a = n_id b \<Longrightarrow> update_row a (update_row b rows) = update_row a rows"
  by (induction rows) (auto simp: update_row_def)

lemma try_Inl:
  "send_notification_try p w n = (Inl e, n', w') \<Longrightarrow> session_invalid w' \<and> 0 < faults w"
  by (auto simp: send_notification_try_def Let_def
        split: prod.splits sum.splits
        dest!: commit_Inl commit_Inr channel_branch_frame)

lemma try_fields:
  "send_notification_try p w n = (r, n', w') \<Longrightarrow>
     n_id n' = n_id n \<and> user_id n' = user_id n \<and> n_type n' = n_type n \<and>
     channel n' = channel n \<and> subject n' = subject n \<and> content n' = content n \<and>
     n_data n' = n_data n \<and> created_at n' = created_at n \<and> read_at n' = read_at n"
  by (auto simp: send_notification_try_def Let_def split: prod.splits sum.splits if_splits)

lemma try_frame:
  "send_notification_try p w n = (r, n', w') \<Longrightarrow>
     notifications_seq w' = notifications_seq w \<and> preferences w' = preferences w \<and>
     now w' = now w \<and> sleeps w' = sleeps w \<and> faults w' \<le> faults w \<and>
     same_outside {n_id n} (notifications w) (notifications w')"
  by (auto simp: send_notification_try_def Let_def update_row_twice
                 same_outside_refl same_outside_update_row
        split: prod.splits sum.splits if_splits
        dest!: commit_Inl commit_Inr channel_branch_frame intro: faults_db_pop_le order_trans)


lemma try_Inr_status:
  "send_notification_try p w n = (Inr u, n', w') \<Longrightarrow>
     (status n' = ''sent'' \<or> status n' = ''failed'') \<and>
     (channel n \<noteq> ''email'' \<and> channel n \<noteq> ''database'' \<longrightarrow> status n' = ''failed'')"
  by (auto simp: send_notification_try_def Let_def channel_branch_other
        split: prod.splits sum.splits if_splits)

lemma send_notification_status:
  "send_notification p w n = (r, n', w') \<Longrightarrow>
     (status n' = ''sent'' \<or> status n' = ''failed'') \<and>
     (channel n \<noteq> ''email'' \<and> channel n \<noteq> ''database'' \<longrightarrow> status n' = ''failed'')"
  by (auto simp: send_notification_def Let_def
        split: prod.splits sum.splits dest!: try_Inr_status)

lemma send_notification_fields:
  "send_notification p w n = (r, n', w') \<Longrightarrow>
     n_id n' = n_id n \<and> user_id n' = user_id n \<and> n_type n' = n_type n \<and>
     channel n' = channel n \<and> subject n' = subject n \<and> content n' = content n \<and>
     n_data n' = n_data n \<and> created_at n' = created_at n \<and> read_at n' = read_at n"
  by (auto simp: send_notification_def Let_def
        split: prod.splits sum.splits dest!: try_fields)

lemma send_notification_returned:
  "send_notification_try p w n = (Inr u, n1, w1) \<Longrightarrow> send_notification p w n = (Inr (), n1, w1)"
  by (simp add: send_notification_def)

text \<open>
  When the \<open>try\<close> block raises, the session is invalid, so the commit of the \<open>except\<close>
  clause raises as well: the clause never gets the failed record written.
\<close>

lemma send_notification_raised:
  assumes t: "send_notification_try p w n = (Inl e, n1, w1)"
  shows "send_notification p w n =
           (Inl PendingRollbackError,
            n1\<lparr>status := ''failed'', error_message := Some (str_exn e), updated_at := now w1\<rparr>,
            w1\<lparr>log_lines := log_lines w1 @ [SendError (n_id n1) (str_exn e)]\<rparr>)"
proof -
  have "session_invalid w1" using try_Inl[OF t] by simp
  then have "session_invalid (w1\<lparr>log_lines := log_lines w1 @ [SendError (n_id n1) (str_exn e)]\<rparr>)"
    by simp
  from commit_invalid[OF this] show ?thesis
    using t by (simp add: send_notification_def Let_def)
qed

lemma send_notification_frame:
  "send_notification p w n = (r, n', w') \<Longrightarrow>
     notifications_seq w' = notifications_seq w \<and> preferences w' = preferences w \<and>
     now w' = now w \<and> sleeps w' = sleeps w \<and> faults w' \<le> faults w \<and>
     same_outside {n_id n} (notifications w) (notifications w')"
proof -
  assume a: "send_notification p w n = (r, n', w')"
  obtain r1 n1 w1 where t: "send_notification_try p w n = (r1, n1, w1)"
    by (cases "send_notification_try p w n") auto
  note f = try_frame[OF t]
  show ?thesis
  proof (cases r1)
    case (Inr u)
    with a t f send_notification_returned[of p w n u n1 w1] show ?thesis by simp
  next
    case (Inl e)
    with a t f send_notification_raised[of p w n e n1 w1] show ?thesis by auto
  qed
qed

lemma try_Inr_rows:
  "send_notification_try p w n = (Inr u, n', w') \<Longrightarrow>
     notifications w' = update_row n' (notifications w)"
  by (auto simp: send_notification_try_def Let_def update_row_twice
        split: prod.splits sum.splits if_splits
        dest!: commit_Inr channel_branch_frame)

lemma send_notification_healthy:
  assumes "faults w = 0"
  shows "\<exists>n' w'. send_notification p w n = (Inr (), n', w') \<and>
           send_notification_try p w n = (Inr (), n', w') \<and> faults w' = 0 \<and>
           notifications w' = update_row n' (notifications w)"
proof -
  obtain r1 n1 w1 where t: "send_notification_try p w n = (r1, n1, w1)"
    by (cases "send_notification_try p w n") auto
  have "\<exists>u. r1 = Inr u" using t assms by (cases r1) (auto dest: try_Inl)
  then have r1: "r1 = Inr ()" by auto
  have "faults w1 = 0" using try_frame[OF t] assms by simp
  then show ?thesis using t r1 try_Inr_rows[of p w n "()" n1 w1]
    by (simp add: send_notification_def)
qed

subsection \<open>The email branch without a usable preference\<close>

lemma find_no_email:
  assumes "\<forall>q\<in>set prefs. P q \<longrightarrow> \<not> str_truthy (email q)"
  shows "find P prefs = None \<or> (\<exists>q. find P prefs = Some q \<and> \<not> str_truthy (email q))"
  using assms by (induction prefs) auto

lemma channel_branch_no_pref:
  assumes "\<forall>q\<in>set (preferences w). Some (pref_user_id q) = user_id n \<and> pref_channel q = ''email''
             \<longrightarrow> \<not> str_truthy (email q)"
      and "channel n = ''email''"
      and "channel_branch p w n = (r, w')"
  shows "send_email_calls w' = send_email_calls w \<and> smtp_sends w' = smtp_sends w \<and>
         smtp_script w' = smtp_script w \<and> r \<noteq> Inr True"
proof (cases "str_truthy (user_id n)")
  case False
  with assms show ?thesis by (auto simp: channel_branch_def)
next
  case True
  obtain r1 w1 where d: "db_op w = (r1, w1)" by (cases "db_op w") auto
  note w1 = db_op_frame[OF d]
  have "find (\<lambda>q. Some (pref_user_id q) = user_id n \<and> pref_channel q = ''email'')
          (preferences w1) = None \<or>
        (\<exists>q. find (\<lambda>q. Some (pref_user_id q) = user_id n \<and> pref_channel q = ''email'')
               (preferences w1) = Some q \<and> \<not> str_truthy (email q))"
    using find_no_email[OF assms(1)] w1 by simp
  then show ?thesis using assms(2,3) True d w1
    by (auto simp: channel_branch_def split: sum.splits)
qed

lemma try_no_pref:
  assumes ch: "channel n = ''email''"
      and np: "\<forall>q\<in>set (preferences w).
                 Some (pref_user_id q) = user_id n \<and> pref_channel q = ''email''
                   \<longrightarrow> \<not> str_truthy (email q)"
      and t: "send_notification_try p w n = (r, n', w')"
  shows "send_email_calls w' = send_email_calls w \<and> smtp_sends w' = smtp_sends w \<and>
         (r = Inr () \<longrightarrow> status n' = ''failed'' \<and>
            error_message n' = Some ''Failed to send notification'')"
proof -
  let ?n1 = "n\<lparr>status := ''processing'', updated_at := now w\<rparr>"
  obtain r1 w1 where c1: "commit w ?n1 = (r1, w1)" by (cases "commit w ?n1") auto
  show ?thesis
  proof (cases r1)
    case (Inl e)
    with c1 t have "w' = db_fail w" "r = Inl e"
      by (auto simp: send_notification_try_def Let_def dest: commit_Inl)
    then show ?thesis by simp
  next
    case (Inr u)
    with c1 have w1: "w1 = (db_pop w)\<lparr>notifications := update_row ?n1 (notifications w)\<rparr>"
      by (auto dest: commit_Inr)
    obtain r2 w2 where b: "channel_branch p w1 ?n1 = (r2, w2)"
      by (cases "channel_branch p w1 ?n1") auto
    have np1: "\<forall>q\<in>set (preferences w1).
                 Some (pref_user_id q) = user_id ?n1 \<and> pref_channel q = ''email''
                   \<longrightarrow> \<not> str_truthy (email q)"
      using np w1 by simp
    have ch1: "channel ?n1 = ''email''" using ch by simp
    note nb = channel_branch_no_pref[OF np1 ch1 b]
    have same: "send_email_calls w2 = send_email_calls w" "smtp_sends w2 = smtp_sends w"
      using nb w1 by simp_all
    show ?thesis
    proof (cases r2)
      case (Inl e)
      with c1 Inr b t have "w' = w2" "r = Inl e"
        by (auto simp: send_notification_try_def Let_def)
      with same show ?thesis by simp
    next
      case (Inr ok)
      with nb have ok: "ok = False" by simp
      let ?n3 = "?n1\<lparr>status := ''failed'',
                     error_message := Some ''Failed to send notification'',
                     updated_at := now w2\<rparr>"
      obtain r3 w3 where c3: "commit w2 ?n3 = (r3, w3)" by (cases "commit w2 ?n3") auto
      have c1': "commit w ?n1 = (Inr (), w1)" using c1 \<open>r1 = Inr u\<close> by simp
      have b': "channel_branch p w1 ?n1 = (Inr False, w2)" using b Inr ok by simp
      have "send_notification_try p w n =
              (case r3 of Inl e \<Rightarrow> (Inl e, ?n3, w3)
               | Inr u \<Rightarrow> (Inr (), ?n3,
                   w3\<lparr>log_lines := log_lines w3 @ [Processed (n_id ?n3) (status ?n3)]\<rparr>))"
        by (cases r3)
           (simp_all only: send_notification_try_def Let_def c1' b' c3 prod.case sum.case if_False)
      with t have t': "(r, n', w') =
                  (case r3 of Inl e \<Rightarrow> (Inl e, ?n3, w3)
                   | Inr u \<Rightarrow> (Inr (), ?n3,
                       w3\<lparr>log_lines := log_lines w3 @ [Processed (n_id ?n3) (status ?n3)]\<rparr>))"
        by simp
      have "send_email_calls w3 = send_email_calls w2 \<and> smtp_sends w3 = smtp_sends w2"
        using commit_frame[OF c3] by simp
      with same t' show ?thesis by (cases r3) auto
    qed
  qed
qed

subsection \<open>The \<open>enabled\<close> flags have no influence\<close>

lemma db_op_set_enabled:
  "db_op (set_enabled g w) = (fst (db_op w), set_enabled g (snd (db_op w)))"
  by (simp add: db_op_def set_enabled_def split: list.splits option.splits)

lemma commit_set_enabled:
  "commit (set_enabled g w) n = (fst (commit w n), set_enabled g (snd (commit w n)))"
  by (simp add: commit_def db_op_set_enabled split: prod.splits sum.splits)
     (auto simp: set_enabled_def)

lemma send_email_set_enabled:
  "send_email self t s h tx cc bcc (set_enabled g w) =
     (fst (send_email self t s h tx cc bcc w), set_enabled g (snd (send_email self t s h tx cc bcc w)))"
  by (simp add: send_email_def set_enabled_def Let_def split: list.splits option.splits)

lemma find_set_enabled:
  "find (\<lambda>q. Some (pref_user_id q) = u \<and> pref_channel q = c) (map (\<lambda>q. q\<lparr>enabled := g q\<rparr>) prefs)
     = map_option (\<lambda>q. q\<lparr>enabled := g q\<rparr>)
         (find (\<lambda>q. Some (pref_user_id q) = u \<and> pref_channel q = c) prefs)"
  by (induction prefs) auto

lemma preferences_set_enabled:
  "preferences (set_enabled g w) = map (\<lambda>q. q\<lparr>enabled := g q\<rparr>) (preferences w)"
  by (simp add: set_enabled_def)

lemma channel_branch_set_enabled:
  "channel_branch p (set_enabled g w) n =
     (fst (channel_branch p w n), set_enabled g (snd (channel_branch p w n)))"
  by (cases "db_op w")
     (auto simp: channel_branch_def db_op_set_enabled send_email_set_enabled find_set_enabled
                 preferences_set_enabled split_beta
           split: sum.splits option.splits)

lemma now_set_enabled: "now (set_enabled g w) = now w"
  by (simp add: set_enabled_def)

lemma log_set_enabled:
  "log_lines (set_enabled g w) = log_lines w"
  "set_enabled g (w\<lparr>log_lines := ls\<rparr>) = (set_enabled g w)\<lparr>log_lines := ls\<rparr>"
  by (simp_all add: set_enabled_def)

lemma try_set_enabled:
  "send_notification_try p (set_enabled g w) n =
     (fst (send_notification_try p w n), fst (snd (send_notification_try p w n)),
      set_enabled g (snd (snd (send_notification_try p w n))))"
proof -
  let ?n1 = "n\<lparr>status := ''processing'', updated_at := now w\<rparr>"
  obtain r1 w1 where c1: "commit w ?n1 = (r1, w1)" by (cases "commit w ?n1") auto
  obtain r2 w2 where b: "channel_branch p w1 ?n1 = (r2, w2)"
    by (cases "channel_branch p w1 ?n1") auto
  show ?thesis
  proof (cases r1)
    case (Inl e)
    with c1 show ?thesis
      by (simp add: send_notification_try_def Let_def commit_set_enabled now_set_enabled log_set_enabled)
  next
    case r1: (Inr u)
    show ?thesis
    proof (cases r2)
      case (Inl e)
      with c1 r1 b show ?thesis
        by (simp add: send_notification_try_def Let_def commit_set_enabled now_set_enabled log_set_enabled
              channel_branch_set_enabled)
    next
      case (Inr ok)
      let ?n3 = "(if ok then ?n1\<lparr>status := ''sent'', sent_at := Some (now w2)\<rparr>
             else ?n1\<lparr>status := ''failed'', error_message := Some ''Failed to send notification''\<rparr>)
            \<lparr>updated_at := now w2\<rparr>"
      obtain r3 w3 where c3: "commit w2 ?n3 = (r3, w3)" by (cases "commit w2 ?n3") auto
      with c1 r1 b Inr show ?thesis
        by (cases r3; cases ok)
           (simp_all add: send_notification_try_def Let_def commit_set_enabled now_set_enabled log_set_enabled
              channel_branch_set_enabled)
    qed
  qed
qed

lemma send_notification_set_enabled:
  "send_notification p (set_enabled g w) n =
     (fst (send_notification p w n), fst (snd (send_notification p w n)),
      set_enabled g (snd (snd (send_notification p w n))))"
proof -
  obtain r1 n1 w1 where t: "send_notification_try p w n = (r1, n1, w1)"
    by (cases "send_notification_try p w n") auto
  then have t': "send_notification_try p (set_enabled g w) n = (r1, n1, set_enabled g w1)"
    by (simp add: try_set_enabled)
  show ?thesis
  proof (cases r1)
    case (Inr u)
    with t t' show ?thesis by (simp add: send_notification_returned)
  next
    case (Inl e)
    with t t' show ?thesis
      by (simp add: send_notification_raised now_set_enabled log_set_enabled)
  qed
qed

subsection \<open>The email branch with a preference\<close>

lemma find_unique:
  "q \<in> set prefs \<Longrightarrow> P q \<Longrightarrow> (\<forall>q'\<in>set prefs. P q' \<longrightarrow> q' = q) \<Longrightarrow> find P prefs = Some q"
proof (induction prefs)
  case Nil
  then show ?case by simp
next
  case (Cons x xs)
  show ?case
  proof (cases "P x")
    case True
    have "x \<in> set (x # xs)" by simp
    with Cons.prems(3) True have "x = q" by blast
    then show ?thesis using True by (simp only: find.simps if_True)
  next
    case False
    with Cons.prems(1,2) have m: "q \<in> set xs" by (cases "q = x") simp_all
    have u: "\<forall>q'\<in>set xs. P q' \<longrightarrow> q' = q"
    proof (intro ballI impI)
      fix q' assume "q' \<in> set xs" "P q'"
      then have "q' \<in> set (x # xs)" by simp
      with Cons.prems(3) \<open>P q'\<close> show "q' = q" by blast
    qed
    have "find P xs = Some q" by (rule Cons.IH[OF m Cons.prems(2) u])
    then show ?thesis using False by (simp only: find.simps if_False)
  qed
qed

lemma try_healthy:
  assumes h: "faults w = 0"
      and b: "channel_branch p
                ((db_pop w)\<lparr>notifications :=
                   update_row (n\<lparr>status := ''processing'', updated_at := now w\<rparr>) (notifications w)\<rparr>)
                (n\<lparr>status := ''processing'', updated_at := now w\<rparr>) = (Inr ok, w2)"
  shows "send_email_calls (snd (snd (send_notification_try p w n))) = send_email_calls w2"
proof -
  let ?n1 = "n\<lparr>status := ''processing'', updated_at := now w\<rparr>"
  let ?w1 = "(db_pop w)\<lparr>notifications := update_row ?n1 (notifications w)\<rparr>"
  have c1: "commit w ?n1 = (Inr (), ?w1)" using h by (rule commit_healthy)
  have h1: "faults ?w1 = 0" using h faults_db_pop_le[of w] by simp
  have h2: "faults w2 = 0" using channel_branch_frame[OF b] h1 by simp
  show ?thesis
    by (simp add: send_notification_try_def Let_def c1 b commit_healthy[OF h2])
qed

lemma channel_branch_email:
  assumes ch: "channel n = ''email''"
      and us: "str_truthy (user_id n)"
      and f: "find (\<lambda>q. Some (pref_user_id q) = user_id n \<and> pref_channel q = ''email'')
                (preferences w) = Some q"
      and a: "email q = Some addr" "addr \<noteq> []"
      and h: "faults w = 0"
  shows "channel_branch p w n =
           (Inr (fst (send_email p addr (subject n) (content n) None None None (db_pop w))),
            snd (send_email p addr (subject n) (content n) None None None (db_pop w)))"
proof -
  have d: "db_op w = (Inr (), db_pop w)" using db_op_healthy[OF h] by simp
  show ?thesis
    unfolding channel_branch_def using ch us a by (simp add: d f split_beta)
qed

subsection \<open>The low-stock event\<close>




subsection \<open>Marking all notifications read\<close>

text \<open>
  The sibling route \<open>mark_all_notifications_read\<close> only touches rows whose \<open>read_at\<close> is
  null, so a second call at any later time \<open>t\<close> changes no row.
\<close>

lemma mark_all_notifications_read_twice:
  assumes "faults w = 0"
  shows "notifications (snd (mark_all_notifications_read uid
            ((snd (mark_all_notifications_read uid w))\<lparr>now := t\<rparr>)))
         = notifications (snd (mark_all_notifications_read uid w))"
proof -
  have d: "db_op w = (Inr (), db_pop w)" "faults (db_pop w) = 0"
    using db_op_healthy[OF assms] by simp_all
  have d2: "db_op (db_pop w) = (Inr (), db_pop (db_pop w))" "faults (db_pop (db_pop w)) = 0"
    using db_op_healthy[OF d(2)] by simp_all
  let ?rows = "map (\<lambda>n. if user_id n = Some uid \<and> read_at n = None
                          then n\<lparr>read_at := Some (now w), updated_at := now w\<rparr> else n)
                 (notifications w)"
  let ?w1 = "(db_pop (db_pop w))\<lparr>notifications := ?rows\<rparr>"
  have first: "snd (mark_all_notifications_read uid w) = ?w1"
    by (simp add: mark_all_notifications_read_def AsyncSessionLocal_healthy[OF assms] d d2 Let_def)
  have f1: "faults (?w1\<lparr>now := t\<rparr>) = 0" using d2(2) by simp
  note e = db_op_healthy[OF f1]
  have f2: "faults (db_pop (?w1\<lparr>now := t\<rparr>)) = 0" using e by simp
  note e2 = db_op_healthy[OF f2]
  have "notifications (snd (mark_all_notifications_read uid (?w1\<lparr>now := t\<rparr>))) =
          map (\<lambda>n. if user_id n = Some uid \<and> read_at n = None
                          then n\<lparr>read_at := Some t, updated_at := t\<rparr> else n) ?rows"
    using e e2 by (simp add: mark_all_notifications_read_def AsyncSessionLocal_healthy[OF f1] Let_def)
  also have "\<dots> = ?rows" by (simp add: comp_def cong: if_cong)
  finally show ?thesis using first by simp
qed

subsection \<open>The sweep\<close>

lemma select_pending_length: "length (select_pending l rows) \<le> nat l"
  by (simp add: select_pending_def)

lemma select_pending_set:
  "b \<in> set (select_pending l rows) \<Longrightarrow> b \<in> set rows \<and> status b = ''pending''"
  by (auto simp: select_pending_def dest!: in_set_takeD)

lemma select_pending_sorted: "sorted (map created_at (select_pending l rows))"
proof -
  have "sorted (map created_at (sort_key created_at (filter (\<lambda>n. status n = ''pending'') rows)))"
    by (rule sorted_sort_key)
  then show ?thesis
    by (simp add: select_pending_def take_map[symmetric] sorted_wrt_take)
qed

lemma select_pending_oldest:
  assumes b: "b \<in> set (select_pending l rows)"
      and r: "r \<in> set rows" "status r = ''pending''" "r \<notin> set (select_pending l rows)"
  shows "created_at b \<le> created_at r"
proof -
  let ?xs = "sort_key created_at (filter (\<lambda>n. status n = ''pending'') rows)"
  have s: "sorted (map created_at (take (nat l) ?xs @ drop (nat l) ?xs))"
    by (simp add: sorted_sort_key)
  have "r \<in> set ?xs" using r by simp
  then have "r \<in> set (take (nat l) ?xs) \<union> set (drop (nat l) ?xs)"
    by (metis append_take_drop_id set_append)
  with r(3) have rd: "r \<in> set (drop (nat l) ?xs)" by (simp add: select_pending_def)
  have bt: "b \<in> set (take (nat l) ?xs)" using b by (simp add: select_pending_def)
  from s have "sorted (map created_at (take (nat l) ?xs) @ map created_at (drop (nat l) ?xs))"
    by (simp only: map_append)
  then have o: "\<forall>x\<in>set (map created_at (take (nat l) ?xs)).
                 \<forall>y\<in>set (map created_at (drop (nat l) ?xs)). x \<le> y"
    unfolding sorted_append by (elim conjE)
  have "created_at b \<in> set (map created_at (take (nat l) ?xs))"
    using bt by (simp only: set_map) (rule imageI)
  moreover have "created_at r \<in> set (map created_at (drop (nat l) ?xs))"
    using rd by (simp only: set_map) (rule imageI)
  ultimately show ?thesis using o by blast
qed

lemma send_all_frame:
  "send_all p w ns = (r, w') \<Longrightarrow>
     notifications_seq w' = notifications_seq w \<and> preferences w' = preferences w \<and>
     now w' = now w \<and> sleeps w' = sleeps w \<and> faults w' \<le> faults w \<and>
     same_outside (n_id ` set ns) (notifications w) (notifications w')"
proof (induction ns arbitrary: w)
  case Nil
  then show ?case by (simp add: same_outside_refl)
next
  case (Cons n ns)
  obtain r1 n1 w1 where s: "send_notification p w n = (r1, n1, w1)"
    by (cases "send_notification p w n") auto
  note f = send_notification_frame[OF s]
  have so: "same_outside (n_id ` set (n # ns)) (notifications w) (notifications w1)"
    using f by (auto intro: same_outside_mono)
  show ?case
  proof (cases r1)
    case (Inl e)
    with Cons.prems s have "w' = w1" by simp
    with f so show ?thesis by simp
  next
    case (Inr u)
    with Cons.prems s have "send_all p w1 ns = (r, w')" by simp
    from Cons.IH[OF this] have
      i: "notifications_seq w' = notifications_seq w1" "preferences w' = preferences w1"
         "now w' = now w1" "sleeps w' = sleeps w1" "faults w' \<le> faults w1"
         "same_outside (n_id ` set ns) (notifications w1) (notifications w')" by simp_all
    have "same_outside (n_id ` set (n # ns)) (notifications w1) (notifications w')"
      using i(6) by (rule same_outside_mono) auto
    with so have "same_outside (n_id ` set (n # ns)) (notifications w) (notifications w')"
      by (rule same_outside_trans)
    with i f show ?thesis by simp
  qed
qed

lemma update_row_set:
  "r \<in> set (update_row n rows) \<Longrightarrow> n_id r = n_id n \<Longrightarrow> r = n"
  by (auto simp: update_row_def split: if_splits)

lemma same_outside_set:
  assumes "same_outside ids rows rows'" "r' \<in> set rows'" "n_id r' \<notin> ids"
  shows "r' \<in> set rows"
proof -
  from assms(2) obtain k where k: "k < length rows'" "rows' ! k = r'"
    by (auto simp: in_set_conv_nth)
  from assms(1) have l: "length rows = length rows'"
    by (auto simp: same_outside_def dest: list_all2_lengthD)
  from assms(1) k l have "n_id r' = n_id (rows ! k) \<and> (n_id (rows ! k) \<notin> ids \<longrightarrow> r' = rows ! k)"
    by (auto simp: same_outside_def dest: list_all2_nthD)
  with assms(3) k l show ?thesis by auto
qed

lemma send_all_healthy:
  "faults w = 0 \<Longrightarrow>
     fst (send_all p w ns) = Inr () \<and> faults (snd (send_all p w ns)) = 0 \<and>
     (\<forall>r\<in>set (notifications (snd (send_all p w ns))).
        n_id r \<in> n_id ` set ns \<longrightarrow> status r = ''sent'' \<or> status r = ''failed'')"
proof (induction ns arbitrary: w)
  case Nil
  then show ?case by simp
next
  case (Cons n ns)
  from send_notification_healthy[OF Cons.prems, of p n] obtain n1 w1 where
    s: "send_notification p w n = (Inr (), n1, w1)" "faults w1 = 0"
       "notifications w1 = update_row n1 (notifications w)" by auto
  have st: "status n1 = ''sent'' \<or> status n1 = ''failed''" "n_id n1 = n_id n"
    using send_notification_status[OF s(1)] send_notification_fields[OF s(1)] by simp_all
  have e: "send_all p w (n # ns) = send_all p w1 ns" using s(1) by simp
  note ih = Cons.IH[OF s(2)]
  obtain r' w' where a: "send_all p w1 ns = (r', w')" by (cases "send_all p w1 ns") auto
  note fr = send_all_frame[OF a]
  have "status r = ''sent'' \<or> status r = ''failed''"
    if r: "r \<in> set (notifications w')" "n_id r \<in> n_id ` set (n # ns)" for r
  proof (cases "n_id r \<in> n_id ` set ns")
    case True
    with ih a r(1) show ?thesis by simp
  next
    case False
    with r(2) have i: "n_id r = n_id n" by auto
    from fr False r(1) have "r \<in> set (notifications w1)" by (auto intro: same_outside_set)
    with s(3) i st(2) have "r = n1" by (auto intro: update_row_set)
    with st(1) show ?thesis by simp
  qed
  with ih a e show ?case by simp
qed

lemma sweep_try_frame:
  "sweep_try cfg self w = (r, w') \<Longrightarrow>
     notifications_seq w' = notifications_seq w \<and> preferences w' = preferences w \<and>
     now w' = now w \<and> sleeps w' = sleeps w \<and>
     same_outside (n_id ` set (select_pending (batch_size self) (notifications w)))
       (notifications w) (notifications w')"
proof -
  assume a: "sweep_try cfg self w = (r, w')"
  let ?batch = "select_pending (batch_size self) (notifications w)"
  obtain r1 w1 where d: "db_op (AsyncSessionLocal w) = (r1, w1)"
    by (cases "db_op (AsyncSessionLocal w)") auto
  have f1: "notifications w1 = notifications w" "notifications_seq w1 = notifications_seq w"
           "preferences w1 = preferences w" "now w1 = now w" "sleeps w1 = sleeps w"
    using db_op_frame[OF d] by simp_all
  obtain r2 w2 where s: "send_all (EmailProvider_init cfg) w1 ?batch = (r2, w2)"
    by (cases "send_all (EmailProvider_init cfg) w1 ?batch") auto
  note f = send_all_frame[OF s]
  obtain r3 w3 where d3: "db_op w2 = (r3, w3)" by (cases "db_op w2") auto
  note f3 = db_op_frame[OF d3]
  have "w' = w1 \<or> w' = w2 \<or> w' = w3"
    using a d s d3 f1(1) by (auto simp: sweep_try_def split: sum.splits if_splits)
  then show ?thesis using f1 f f3 by (auto simp: same_outside_refl)
qed

lemma sweep_try_healthy:
  assumes h: "faults w = 0" and l: "0 \<le> batch_size self"
  shows "fst (sweep_try cfg self w) = Inr () \<and>
         (\<forall>r\<in>set (notifications (snd (sweep_try cfg self w))).
            n_id r \<in> n_id ` set (select_pending (batch_size self) (notifications w))
              \<longrightarrow> status r = ''sent'' \<or> status r = ''failed'')"
proof -
  let ?batch = "select_pending (batch_size self) (notifications w)"
  have d: "db_op w = (Inr (), db_pop w)" "faults (db_pop w) = 0"
    using db_op_healthy[OF h] by simp_all
  obtain r2 w2 where s: "send_all (EmailProvider_init cfg) (db_pop w) ?batch = (r2, w2)"
    by (cases "send_all (EmailProvider_init cfg) (db_pop w) ?batch") auto
  from send_all_healthy[OF d(2), of "EmailProvider_init cfg" ?batch] s
  have sh: "r2 = Inr ()" "faults w2 = 0"
       "\<forall>r\<in>set (notifications w2). n_id r \<in> n_id ` set ?batch
          \<longrightarrow> status r = ''sent'' \<or> status r = ''failed''" by simp_all
  have d3: "db_op w2 = (Inr (), db_pop w2)" using db_op_healthy[OF sh(2)] by simp
  have "sweep_try cfg self w = (Inr (), db_pop w2)"
    using d s sh(1) d3 l by (simp add: sweep_try_def AsyncSessionLocal_healthy[OF h])
  with sh(3) show ?thesis by simp
qed

lemma sweep_iteration_fields:
  "notifications (sweep_iteration cfg self w) = notifications (snd (sweep_try cfg self w))"
  "preferences (sweep_iteration cfg self w) = preferences w"
  "sleeps (sweep_iteration cfg self w) = sleeps w @ [processing_interval self]"
  using sweep_try_frame[of cfg self w "fst (sweep_try cfg self w)" "snd (sweep_try cfg self w)"]
  by (simp_all add: sweep_iteration_def asyncio_sleep_def)

lemma distinct_ids_eq:
  "distinct (map n_id rows) \<Longrightarrow> a \<in> set rows \<Longrightarrow> b \<in> set rows \<Longrightarrow> n_id a = n_id b \<Longrightarrow> a = b"
  by (auto simp: distinct_map dest: inj_onD)

lemma same_outside_nth:
  assumes "same_outside ids rows rows'"
  shows "length rows' = length rows"
    and "k < length rows \<Longrightarrow> n_id (rows' ! k) = n_id (rows ! k)"
    and "k < length rows \<Longrightarrow> n_id (rows ! k) \<notin> ids \<Longrightarrow> rows' ! k = rows ! k"
  using assms
  by (auto simp: same_outside_def dest: list_all2_lengthD list_all2_nthD)

lemma sweep_iteration_outside_batch:
  assumes pk: "distinct (map n_id (notifications w))"
  shows "length (notifications (sweep_iteration cfg self w)) = length (notifications w)"
    and "k < length (notifications w) \<Longrightarrow>
           notifications w ! k \<notin> set (select_pending (batch_size self) (notifications w)) \<Longrightarrow>
           notifications (sweep_iteration cfg self w) ! k = notifications w ! k"
proof -
  let ?rows = "notifications w" and ?rows' = "notifications (sweep_iteration cfg self w)"
  let ?batch = "select_pending (batch_size self) (notifications w)"
  have so: "same_outside (n_id ` set ?batch) ?rows ?rows'"
    using sweep_try_frame[of cfg self w "fst (sweep_try cfg self w)" "snd (sweep_try cfg self w)"]
    by (simp add: sweep_iteration_fields)
  note n = same_outside_nth[OF so]
  show "length ?rows' = length ?rows" by (rule n(1))
  show "?rows' ! k = ?rows ! k" if k: "k < length ?rows" "?rows ! k \<notin> set ?batch"
  proof -
    have "n_id (?rows ! k) \<notin> n_id ` set ?batch"
    proof
      assume "n_id (?rows ! k) \<in> n_id ` set ?batch"
      then obtain b where b: "b \<in> set ?batch" "n_id (?rows ! k) = n_id b" by auto
      from b(1) have "b \<in> set ?rows" by (auto dest: select_pending_set)
      with pk k(1) b(2) have "?rows ! k = b" by (intro distinct_ids_eq[of ?rows]) simp_all
      with b(1) k(2) show False by simp
    qed
    with n(3)[OF k(1)] show ?thesis by simp
  qed
qed

lemma sweep_iteration_batch_done:
  assumes h: "faults w = 0" "0 \<le> batch_size self"
      and k: "k < length (notifications w)"
             "notifications w ! k \<in> set (select_pending (batch_size self) (notifications w))"
  shows "n_id (notifications (sweep_iteration cfg self w) ! k) = n_id (notifications w ! k) \<and>
         (status (notifications (sweep_iteration cfg self w) ! k) = ''sent'' \<or>
          status (notifications (sweep_iteration cfg self w) ! k) = ''failed'')"
proof -
  let ?rows = "notifications w" and ?rows' = "notifications (sweep_iteration cfg self w)"
  let ?batch = "select_pending (batch_size self) (notifications w)"
  have so: "same_outside (n_id ` set ?batch) ?rows ?rows'"
    using sweep_try_frame[of cfg self w "fst (sweep_try cfg self w)" "snd (sweep_try cfg self w)"]
    by (simp add: sweep_iteration_fields)
  note n = same_outside_nth[OF so]
  have i: "n_id (?rows' ! k) = n_id (?rows ! k)" using n(2)[OF k(1)] .
  have "?rows' ! k \<in> set ?rows'" using k(1) n(1) by simp
  moreover have "n_id (?rows' ! k) \<in> n_id ` set ?batch" using i k(2) by auto
  ultimately show ?thesis
    using sweep_try_healthy[OF h, of cfg] i by (simp add: sweep_iteration_fields)
qed

lemma sweep_sleeps:
  "sleeps ((sweep_iteration cfg self ^^ k) w) = sleeps w @ replicate k (processing_interval self)"
  by (induction k) (simp_all add: sweep_iteration_fields replicate_append_same)

lemma sweep_loop:
  "process_pending_notifications cfg self flags w =
     (if False \<in> set flags
      then Some ((sweep_iteration cfg self ^^ length (takeWhile (\<lambda>r. r) flags)) w)
      else None)"
  by (induction flags arbitrary: w) (simp_all add: funpow_swap1)

subsection \<open>The order in which a batch is handled\<close>

lemma try_log:
  "send_notification_try p w n = (r, n', w') \<Longrightarrow>
     log_lines w' = log_lines w @ (case r of Inl e \<Rightarrow> [] | Inr u \<Rightarrow> [Processed (n_id n) (status n')])"
  by (auto simp: send_notification_try_def Let_def
        split: prod.splits sum.splits if_splits
        dest!: commit_Inl commit_Inr channel_branch_frame)

text \<open>Every call of \<open>send_notification\<close> writes one line about its record, also when it raises.\<close>

lemma send_notification_log:
  assumes a: "send_notification p w n = (r, n', w')"
  shows "map log_id (log_lines w') = map log_id (log_lines w) @ [n_id n]"
proof -
  obtain r1 n1 w1 where t: "send_notification_try p w n = (r1, n1, w1)"
    by (cases "send_notification_try p w n") auto
  note l = try_log[OF t] and f = try_fields[OF t]
  show ?thesis
  proof (cases r1)
    case (Inr u)
    have "log_lines w1 = log_lines w @ [Processed (n_id n) (status n1)]" using l Inr by simp
    moreover have "w' = w1"
      using a send_notification_returned[of p w n u n1 w1] t Inr by simp
    ultimately show ?thesis by simp
  next
    case (Inl e)
    have "log_lines w1 = log_lines w" using l Inl by simp
    moreover have "w' = w1\<lparr>log_lines := log_lines w1 @ [SendError (n_id n1) (str_exn e)]\<rparr>"
      using a send_notification_raised[of p w n e n1 w1] t Inl by simp
    ultimately show ?thesis using f by simp
  qed
qed

lemma send_all_log:
  "send_all p w ns = (r, w') \<Longrightarrow>
     \<exists>j\<le>length ns. map log_id (log_lines w') = map log_id (log_lines w) @ map n_id (take j ns) \<and>
        (r = Inr () \<longrightarrow> j = length ns)"
proof (induction ns arbitrary: w)
  case Nil
  then show ?case by simp
next
  case (Cons n ns)
  obtain r1 n1 w1 where s: "send_notification p w n = (r1, n1, w1)"
    by (cases "send_notification p w n") auto
  note l = send_notification_log[OF s]
  show ?case
  proof (cases r1)
    case (Inl e)
    with Cons.prems s have "w' = w1" "r = Inl e" by simp_all
    with l have "map log_id (log_lines w') = map log_id (log_lines w) @ map n_id (take 1 (n # ns)) \<and>
                 (r = Inr () \<longrightarrow> 1 = length (n # ns))" by simp
    then show ?thesis by (intro exI[of _ 1]) simp
  next
    case (Inr u)
    with Cons.prems s have "send_all p w1 ns = (r, w')" by simp
    from Cons.IH[OF this] obtain j where
      j: "j \<le> length ns"
         "map log_id (log_lines w') = map log_id (log_lines w1) @ map n_id (take j ns)"
         "r = Inr () \<longrightarrow> j = length ns" by auto
    with l have "map log_id (log_lines w') =
                   map log_id (log_lines w) @ map n_id (take (Suc j) (n # ns)) \<and>
                 (r = Inr () \<longrightarrow> Suc j = length (n # ns))" by simp
    with j(1) show ?thesis by (intro exI[of _ "Suc j"]) simp
  qed
qed

lemma sweep_iteration_log:
  "\<exists>j\<le>length (select_pending (batch_size self) (notifications w)).
     map log_id (log_lines (sweep_iteration cfg self w)) =
       map log_id (log_lines w) @
       map n_id (take j (select_pending (batch_size self) (notifications w))) \<and>
     (faults w = 0 \<and> 0 \<le> batch_size self \<longrightarrow>
        j = length (select_pending (batch_size self) (notifications w)))"
proof -
  let ?batch = "select_pending (batch_size self) (notifications w)"
  obtain r1 w1 where d: "db_op (AsyncSessionLocal w) = (r1, w1)"
    by (cases "db_op (AsyncSessionLocal w)") auto
  have f1: "notifications w1 = notifications w" "log_lines w1 = log_lines w"
    using db_op_frame[OF d] by simp_all
  obtain r2 w2 where s: "send_all (EmailProvider_init cfg) w1 ?batch = (r2, w2)"
    by (cases "send_all (EmailProvider_init cfg) w1 ?batch") auto
  from send_all_log[OF s] obtain j where
    j: "j \<le> length ?batch"
       "map log_id (log_lines w2) = map log_id (log_lines w1) @ map n_id (take j ?batch)"
       "r2 = Inr () \<longrightarrow> j = length ?batch" by auto
  obtain r3 w3 where d3: "db_op w2 = (r3, w3)" by (cases "db_op w2") auto
  have f3: "log_lines w3 = log_lines w2" using db_op_frame[OF d3] by simp
  have il: "log_lines (sweep_iteration cfg self w) = log_lines (snd (sweep_try cfg self w))"
    by (simp add: sweep_iteration_def asyncio_sleep_def)
  show ?thesis
  proof (cases "faults w = 0 \<and> 0 \<le> batch_size self")
    case True
    then have h: "faults w = 0" and l: "0 \<le> batch_size self" by simp_all
    have w1: "r1 = Inr ()" "faults w1 = 0"
      using d db_op_healthy[of w] h by (simp_all add: AsyncSessionLocal_healthy)
    have "r2 = Inr ()" using send_all_healthy[OF w1(2), of "EmailProvider_init cfg" ?batch] s by simp
    with j have jl: "j = length ?batch" by simp
    have "snd (sweep_try cfg self w) = w3"
      using d w1(1) l s \<open>r2 = Inr ()\<close> d3 f1(1) by (simp add: sweep_try_def)
    with il f3 j(2) f1(2) jl show ?thesis by (intro exI[of _ "length ?batch"]) simp
  next
    case False
    have "snd (sweep_try cfg self w) = w1 \<or> snd (sweep_try cfg self w) = w2
          \<or> snd (sweep_try cfg self w) = w3"
      using d s d3 f1(1) by (auto simp: sweep_try_def split: sum.splits if_splits)
    then consider (a) "snd (sweep_try cfg self w) = w1" | (b) "snd (sweep_try cfg self w) = w2"
      | (c) "snd (sweep_try cfg self w) = w3" by blast
    moreover have imp: "faults w = 0 \<and> 0 \<le> batch_size self \<longrightarrow> k = length ?batch" for k
      using False by blast
    ultimately show ?thesis
    proof cases
      case a
      have "map log_id (log_lines (sweep_iteration cfg self w)) =
              map log_id (log_lines w) @ map n_id (take 0 ?batch)"
        using a il f1(2) by simp
      with imp[of 0] show ?thesis by (intro exI[of _ 0]) simp
    next
      case b
      have "map log_id (log_lines (sweep_iteration cfg self w)) =
              map log_id (log_lines w) @ map n_id (take j ?batch)"
        using b il j(2) f1(2) by simp
      with imp[of j] j(1) show ?thesis by (intro exI[of _ j]) simp
    next
      case c
      have "map log_id (log_lines (sweep_iteration cfg self w)) =
              map log_id (log_lines w) @ map n_id (take j ?batch)"
        using c il j(2) f1(2) f3 by simp
      with imp[of j] j(1) show ?thesis by (intro exI[of _ j]) simp
    qed
  qed
qed

subsection \<open>What the query selects\<close>

lemma select_pending_exact:
  "length (select_pending l rows) = min (nat l) (length (filter (\<lambda>n. status n = ''pending'') rows))"
  by (simp add: select_pending_def min.commute)

lemma select_pending_all:
  assumes "length (filter (\<lambda>n. status n = ''pending'') rows) \<le> nat l"
  shows "set (select_pending l rows) = {r \<in> set rows. status r = ''pending''}"
  using assms by (simp add: select_pending_def)

lemma select_pending_three:
  assumes p: "{r \<in> set rows. status r = ''pending''} = {r1, r2, r3}"
      and d: "distinct (map n_id rows)"
      and o: "created_at r1 < created_at r2" "created_at r2 < created_at r3"
  shows "select_pending 2 rows = [r1, r2]"
proof -
  let ?xs = "sort_key created_at (filter (\<lambda>n. status n = ''pending'') rows)"
  have sx: "set ?xs = {r1, r2, r3}" using p by auto
  have dx: "distinct ?xs" using d by (simp add: distinct_map)
  have inj: "inj_on created_at {r1, r2, r3}" using o by (auto simp: inj_on_def)
  have "map created_at ?xs = [created_at r1, created_at r2, created_at r3]"
  proof (rule sorted_distinct_set_unique)
    show "sorted (map created_at ?xs)" by (rule sorted_sort_key)
    show "distinct (map created_at ?xs)" using dx inj sx by (simp only: distinct_map)
    show "sorted [created_at r1, created_at r2, created_at r3]" using o by simp
    show "distinct [created_at r1, created_at r2, created_at r3]" using o by simp
    show "set (map created_at ?xs) = set [created_at r1, created_at r2, created_at r3]"
      by (simp only: set_map sx) simp
  qed
  then have "map created_at ?xs = map created_at [r1, r2, r3]" by simp
  moreover have "inj_on created_at (set ?xs \<union> set [r1, r2, r3])" using inj sx by simp
  ultimately have "?xs = [r1, r2, r3]" by (simp only: inj_on_map_eq_map)
  then show ?thesis by (simp add: select_pending_def)
qed

subsection \<open>Unfolding for concrete inputs\<close>

lemmas eval_defs = send_notification_def send_notification_try_def commit_def db_op_def
  channel_branch_def send_email_def update_row_def EmailProvider_init_def AsyncSessionLocal_def
  PendingRollbackError_def Let_def

section \<open>The claims\<close>

text \<open>
  Claim C1 fails on the code. An exception raised in the \<open>try\<close> block of
  \<open>send_notification\<close> leaves the session invalid, and the \<open>except\<close> clause commits on
  that session without a rollback (line 206, outside every \<open>try\<close>): this commit raises,
  the exception reaches the caller, and the status \<open>failed\<close> is never written. On the
  first input the first commit fails once, and the stored row stays \<open>pending\<close>; on the
  second the preference query of the email branch fails, and the stored row stays
  \<open>processing\<close>.
\<close>

theorem send_notification_propagates:
  "send_notification (EmailProvider_init default_settings)
     (sms_world [Some ''connection lost'']) sms_record =
   (Inl PendingRollbackError,
    sms_record\<lparr>status := ''failed'', error_message := Some ''connection lost'', updated_at := 1000\<rparr>,
    (sms_world [])\<lparr>session_invalid := True, log_lines := [SendError 1 ''connection lost'']\<rparr>) \<and>
   map status (notifications (snd (snd (send_notification (EmailProvider_init default_settings)
     (sms_world [Some ''connection lost'']) sms_record)))) = [''pending''] \<and>
   fst (send_notification (EmailProvider_init smtp_settings)
     ((email_world [pref_disabled])\<lparr>db_script := [None, Some ''query failed'']\<rparr>) email_record)
     = Inl PendingRollbackError \<and>
   map status (notifications (snd (snd (send_notification (EmailProvider_init smtp_settings)
     ((email_world [pref_disabled])\<lparr>db_script := [None, Some ''query failed'']\<rparr>) email_record))))
     = [''processing'']"
  by (simp add: sms_world_def sms_record_def email_world_def email_record_def pref_disabled_def
        smtp_settings_def default_settings_def eval_defs)






text \<open>
  Claim C4 fails on the code. \<open>mark_notification_read\<close> sets \<open>read_at\<close> and \<open>updated_at\<close>
  to the current time on every call: a second call at a later time changes both.
\<close>

theorem mark_notification_read_twice:
  "mark_notification_read 2 (email_world []) =
     (Inr read_once, (email_world [])\<lparr>notifications := [read_once]\<rparr>) \<and>
   mark_notification_read 2 ((email_world [])\<lparr>notifications := [read_once], now := 2000\<rparr>) =
     (Inr read_twice, (email_world [])\<lparr>notifications := [read_twice], now := 2000\<rparr>) \<and>
   read_at read_once \<noteq> read_at read_twice \<and> updated_at read_once \<noteq> updated_at read_twice"
  by (simp add: mark_notification_read_def email_world_def email_record_def read_once_def
        read_twice_def commit_def db_op_def update_row_def AsyncSessionLocal_def Let_def)

text \<open>
  Claim C5. Let the record have channel \<open>email\<close> and let no preference of (its user,
  \<open>email\<close>) hold a non-empty address (in particular when the record has no user). Then
  \<open>send_notification\<close> does not call \<open>send_email\<close>, hands nothing to the transport
  and leaves the record with status \<open>failed\<close>; and when the database operations
  succeed it returns normally, the error message is \<open>Failed to send notification\<close>,
  and the record is written to its row.
\<close>

theorem email_without_preference_fails:
  fixes p w n
  defines "res \<equiv> send_notification p w n"
  assumes ch: "channel n = ''email''"
      and np: "\<forall>q\<in>set (preferences w).
                 Some (pref_user_id q) = user_id n \<and> pref_channel q = ''email''
                   \<longrightarrow> \<not> str_truthy (email q)"
  shows "send_email_calls (snd (snd res)) = send_email_calls w \<and>
         smtp_sends (snd (snd res)) = smtp_sends w \<and>
         status (fst (snd res)) = ''failed'' \<and>
         (faults w = 0 \<longrightarrow>
            fst res = Inr () \<and>
            error_message (fst (snd res)) = Some ''Failed to send notification'' \<and>
            notifications (snd (snd res)) = update_row (fst (snd res)) (notifications w))"
proof -
  obtain r1 n1 w1 where t: "send_notification_try p w n = (r1, n1, w1)"
    by (cases "send_notification_try p w n") auto
  note tp = try_no_pref[OF ch np t]
  have a: "send_email_calls (snd (snd res)) = send_email_calls w \<and>
           smtp_sends (snd (snd res)) = smtp_sends w \<and> status (fst (snd res)) = ''failed''"
  proof (cases r1)
    case (Inr u)
    with t tp show ?thesis by (simp add: res_def send_notification_def)
  next
    case (Inl e)
    with t tp send_notification_raised[of p w n e n1 w1] show ?thesis
      by (simp add: res_def)
  qed
  have b: "fst res = Inr () \<and>
            error_message (fst (snd res)) = Some ''Failed to send notification'' \<and>
            notifications (snd (snd res)) = update_row (fst (snd res)) (notifications w)"
    if h: "faults w = 0"
  proof -
    from send_notification_healthy[OF h, of p n] obtain n' w' where
      s: "send_notification p w n = (Inr (), n', w')"
         "send_notification_try p w n = (Inr (), n', w')"
         "notifications w' = update_row n' (notifications w)" by auto
    with t tp show ?thesis by (simp add: res_def)
  qed
  from a b show ?thesis by blast
qed

theorem email_without_preference_fails_witness:
  "channel email_record = ''email'' \<and> faults (email_world [pref_no_address]) = 0 \<and>
   send_notification (EmailProvider_init smtp_settings) (email_world [pref_no_address]) email_record =
     (Inr (),
      email_record\<lparr>status := ''failed'',
                   error_message := Some ''Failed to send notification'', updated_at := 1000\<rparr>,
      (email_world [pref_no_address])\<lparr>notifications :=
         [email_record\<lparr>status := ''failed'',
                       error_message := Some ''Failed to send notification'',
                       updated_at := 1000\<rparr>],
         log_lines := [Processed 2 ''failed'']\<rparr>)"
  using email_without_preference_fails[of email_record "email_world [pref_no_address]"
          "EmailProvider_init smtp_settings"]
  by (simp add: faults_def email_world_def email_record_def pref_no_address_def
        smtp_settings_def default_settings_def eval_defs)

text \<open>
  Claim C6. In a table with distinct ids, the batch of one sweep iteration holds exactly
  the smaller of \<open>batch_size\<close> and the number of pending rows (so at most \<open>batch_size\<close>
  rows), all of them pending rows of the table, in ascending order of \<open>created_at\<close>, and no
  pending row left out is older than a row of the batch. In particular, when the pending
  rows are \<open>r1\<close>, \<open>r2\<close>, \<open>r3\<close>, created in this order, and \<open>batch_size\<close> is 2, the batch is
  \<open>[r1, r2]\<close>. The iteration changes no row outside the batch, so a pending row beyond the
  limit stays pending. The records are handled in the order of the batch: the lines that
  \<open>send_notification\<close> logs during the iteration are those of a prefix of the batch, in
  this order; and when the database operations succeed they are those of the whole
  batch, and every row of the batch ends as \<open>sent\<close> or \<open>failed\<close>.
\<close>

theorem sweep_takes_oldest_pending:
  fixes cfg self w
  defines "rows \<equiv> notifications w"
      and "rows' \<equiv> notifications (sweep_iteration cfg self w)"
      and "batch \<equiv> select_pending (batch_size self) (notifications w)"
      and "logged \<equiv> map log_id (log_lines (sweep_iteration cfg self w))"
  assumes pk: "distinct (map n_id (notifications w))"
  shows "length batch = min (nat (batch_size self))
                          (length (filter (\<lambda>n. status n = ''pending'') rows)) \<and>
         length batch \<le> nat (batch_size self) \<and>
         (\<forall>b\<in>set batch. b \<in> set rows \<and> status b = ''pending'') \<and>
         sorted (map created_at batch) \<and>
         (\<forall>b\<in>set batch. \<forall>r\<in>set rows.
            status r = ''pending'' \<and> r \<notin> set batch \<longrightarrow> created_at b \<le> created_at r) \<and>
         (\<forall>r1 r2 r3.
            {r \<in> set rows. status r = ''pending''} = {r1, r2, r3} \<and>
            created_at r1 < created_at r2 \<and> created_at r2 < created_at r3 \<and>
            batch_size self = 2 \<longrightarrow> batch = [r1, r2]) \<and>
         length rows' = length rows \<and>
         (\<forall>k<length rows. rows ! k \<notin> set batch \<longrightarrow> rows' ! k = rows ! k) \<and>
         (\<exists>j\<le>length batch. logged = map log_id (log_lines w) @ map n_id (take j batch)) \<and>
         (faults w = 0 \<and> 0 \<le> batch_size self \<longrightarrow>
            logged = map log_id (log_lines w) @ map n_id batch \<and>
            (\<forall>k<length rows. rows ! k \<in> set batch \<longrightarrow>
               n_id (rows' ! k) = n_id (rows ! k) \<and>
               (status (rows' ! k) = ''sent'' \<or> status (rows' ! k) = ''failed'')))"
proof -
  have sub: "b \<in> set rows \<and> status b = ''pending''" if "b \<in> set batch" for b
    using that select_pending_set[of b "batch_size self" "notifications w"]
    by (simp add: batch_def rows_def)
  have old: "created_at b \<le> created_at r"
    if "b \<in> set batch" "r \<in> set rows" "status r = ''pending''" "r \<notin> set batch" for b r
    using that select_pending_oldest[of b "batch_size self" "notifications w" r]
    by (simp add: batch_def rows_def)
  have three: "batch = [r1, r2]"
    if "{r \<in> set rows. status r = ''pending''} = {r1, r2, r3}"
       "created_at r1 < created_at r2" "created_at r2 < created_at r3" "batch_size self = 2"
    for r1 r2 r3
    using that select_pending_three[of "notifications w" r1 r2 r3, OF _ pk]
    by (simp add: batch_def rows_def)
  from sweep_iteration_log[of self w cfg] obtain j where
    j: "j \<le> length batch" "logged = map log_id (log_lines w) @ map n_id (take j batch)"
       "faults w = 0 \<and> 0 \<le> batch_size self \<longrightarrow> j = length batch"
    by (auto simp: batch_def logged_def)
  have pre: "\<exists>j\<le>length batch. logged = map log_id (log_lines w) @ map n_id (take j batch)"
    using j(1,2) by blast
  have full: "logged = map log_id (log_lines w) @ map n_id batch"
    if "faults w = 0" "0 \<le> batch_size self"
    using that j by simp
  have fin: "n_id (rows' ! k) = n_id (rows ! k) \<and>
             (status (rows' ! k) = ''sent'' \<or> status (rows' ! k) = ''failed'')"
    if "faults w = 0" "0 \<le> batch_size self" "k < length rows" "rows ! k \<in> set batch" for k
    using that sweep_iteration_batch_done[where w=w and self=self and cfg=cfg and k=k]
    by (simp add: batch_def rows_def rows'_def)
  have out: "rows' ! k = rows ! k" if "k < length rows" "rows ! k \<notin> set batch" for k
    using that sweep_iteration_outside_batch(2)[OF pk, where cfg=cfg and self=self and k=k]
    by (simp add: batch_def rows_def rows'_def)
  have len: "length rows' = length rows"
    using sweep_iteration_outside_batch(1)[OF pk, where cfg=cfg and self=self]
    by (simp add: rows_def rows'_def)
  have ex: "length batch = min (nat (batch_size self))
                             (length (filter (\<lambda>n. status n = ''pending'') rows))"
    by (simp add: batch_def rows_def select_pending_exact)
  have le: "length batch \<le> nat (batch_size self)"
    by (simp add: batch_def select_pending_length)
  have so: "sorted (map created_at batch)" by (simp add: batch_def select_pending_sorted)
  from ex le sub so old three len out pre full fin show ?thesis by blast
qed

text \<open>
  The scenario of the claim: the batch is the rows created at 10 and 20, in this order;
  both are sent, in this order, and the row created at 30 stays pending, untouched.
\<close>

theorem sweep_takes_oldest_pending_witness:
  "distinct (map n_id (notifications queue_world)) \<and>
   faults queue_world = 0 \<and>
   select_pending (batch_size two_at_a_time) (notifications queue_world) =
     [queue_record 11 ''u1'' 10, queue_record 12 ''u2'' 20] \<and>
   map status (notifications (sweep_iteration smtp_settings two_at_a_time queue_world)) =
     [''pending'', ''sent'', ''sent''] \<and>
   notifications (sweep_iteration smtp_settings two_at_a_time queue_world) ! 0 =
     queue_record 13 ''u3'' 30 \<and>
   log_lines (sweep_iteration smtp_settings two_at_a_time queue_world) =
     [Processed 11 ''sent'', Processed 12 ''sent''] \<and>
   map fst (send_email_calls (sweep_iteration smtp_settings two_at_a_time queue_world)) =
     [''u1@example.com'', ''u2@example.com'']"
  using sweep_takes_oldest_pending[of queue_world two_at_a_time smtp_settings]
  by (simp add: faults_def select_pending_def two_at_a_time_def queue_world_def
        queue_record_def queue_pref_def sweep_iteration_def sweep_try_def asyncio_sleep_def
        smtp_settings_def default_settings_def eval_defs)

text \<open>
  Claim C7. A low-stock event in which \<open>product_id\<close>, \<open>current_quantity\<close> or
  \<open>threshold\<close> is missing is dropped: \<open>handle_low_stock_notification\<close> returns with
  the world unchanged (no row is inserted, \<open>send_email\<close> is not called), for every
  configuration and every state of the database; so does \<open>handle_notification\<close>.
\<close>

theorem low_stock_missing_field_dropped:
  assumes "data ''product_id'' = None \<or> data ''current_quantity'' = None \<or> data ''threshold'' = None"
  shows "handle_low_stock_notification cfg data w = (Inr (), w) \<and>
         handle_notification cfg data w = w"
  using assms
  by (auto simp: handle_low_stock_notification_def handle_notification_def dict_get_def Let_def)

theorem low_stock_missing_field_dropped_witness:
  "event_without_quantity ''current_quantity'' = None \<and>
   handle_low_stock_notification smtp_settings event_without_quantity empty_world
     = (Inr (), empty_world) \<and>
   notifications (handle_notification smtp_settings event_without_quantity empty_world) = [] \<and>
   send_email_calls (handle_notification smtp_settings event_without_quantity empty_world) = []"
  using low_stock_missing_field_dropped[of event_without_quantity smtp_settings empty_world]
  by (simp add: event_without_quantity_def empty_world_def)

text \<open>
  Claim C8. The loop ends exactly when a test of \<open>self.running\<close> reads \<open>False\<close>; until
  then it runs one iteration for every test that reads \<open>True\<close>, whatever the database
  and the transport do (an iteration is a total function of the world: the exceptions of
  its \<open>try\<close> block end there). Every iteration sleeps once, for
  \<open>processing_interval\<close>, whether its batch was empty, partial or full and whether it
  raised: after \<open>k\<close> iterations the sleeps are \<open>k\<close> more.
\<close>

theorem sweep_loop_ends_only_by_flag:
  "process_pending_notifications cfg self flags w =
     (if False \<in> set flags
      then Some ((sweep_iteration cfg self ^^ length (takeWhile (\<lambda>r. r) flags)) w)
      else None) \<and>
   sleeps (sweep_iteration cfg self w) = sleeps w @ [processing_interval self] \<and>
   sleeps ((sweep_iteration cfg self ^^ k) w) = sleeps w @ replicate k (processing_interval self)"
  by (simp add: sweep_loop sweep_sleeps sweep_iteration_fields)

text \<open>
  The query of the first iteration raises; the loop sleeps, runs the second iteration
  (which processes the record), sleeps again, and ends when the flag reads \<open>False\<close>.
  With the flag never \<open>False\<close> it does not end.
\<close>

theorem sweep_loop_ends_only_by_flag_witness:
  "fst (sweep_try default_settings (NotificationProcessor_init default_settings)
          (sms_world [Some ''connection lost''])) = Inl (Exception ''connection lost'') \<and>
   map_option sleeps (process_pending_notifications default_settings
       (NotificationProcessor_init default_settings) [True, True, False]
       (sms_world [Some ''connection lost''])) = Some [30, 30] \<and>
   map_option (map status \<circ> notifications) (process_pending_notifications default_settings
       (NotificationProcessor_init default_settings) [True, True, False]
       (sms_world [Some ''connection lost''])) = Some [''failed''] \<and>
   process_pending_notifications default_settings
       (NotificationProcessor_init default_settings) [True, True]
       (sms_world [Some ''connection lost'']) = None"
  using sweep_loop_ends_only_by_flag[where cfg=default_settings
          and self="NotificationProcessor_init default_settings" and flags="[True, True, False]"
          and w="sms_world [Some ''connection lost'']" and k=2]
  by (simp add: sms_world_def sms_record_def select_pending_def NotificationProcessor_init_def
        sweep_iteration_def sweep_try_def asyncio_sleep_def default_settings_def eval_defs)

text \<open>
  Claim C9. Whenever the username, the password or the sender address of the provider is
  unset (\<open>None\<close> or empty), \<open>send_email\<close> returns \<open>False\<close> for every recipient,
  subject and body, and nothing is handed to the SMTP transport: the world is unchanged
  but for the note of the call. (The result is a boolean: the function has no outcome
  that is an exception.)
\<close>

theorem send_email_unconfigured:
  assumes "\<not> str_truthy (username self) \<or> \<not> str_truthy (password self)
             \<or> \<not> str_truthy (from_email self)"
  shows "fst (send_email self to_email subj html_content text_content cc bcc w) = False \<and>
         smtp_sends (snd (send_email self to_email subj html_content text_content cc bcc w))
           = smtp_sends w \<and>
         snd (send_email self to_email subj html_content text_content cc bcc w)
           = w\<lparr>send_email_calls := send_email_calls w @ [(to_email, subj, html_content)]\<rparr>"
  using assms by (auto simp: send_email_def)

theorem send_email_unconfigured_witness:
  "\<not> str_truthy (username (EmailProvider_init default_settings)) \<and>
   send_email (EmailProvider_init default_settings) ''admin@example.com'' (Some ''Hello'')
       ''<p>Hi</p>'' None None None empty_world =
     (False, empty_world\<lparr>send_email_calls := [(''admin@example.com'', Some ''Hello'', ''<p>Hi</p>'')]\<rparr>)"
  using send_email_unconfigured[of "EmailProvider_init default_settings" "''admin@example.com''"
          "Some ''Hello''" "''<p>Hi</p>''" None None None empty_world]
  by (simp add: EmailProvider_init_def default_settings_def empty_world_def send_email_def)

text \<open>
  Claim C10. Let the record have channel \<open>email\<close> and a user (a non-empty \<open>user_id\<close>), let \<open>q\<close>
  be the preference of (that user, \<open>email\<close>), with a non-empty address, and let the
  database operations succeed. Then \<open>send_notification\<close> calls \<open>send_email\<close> with that
  address, the subject and the content of the record, whatever \<open>enabled q\<close> is.
  Moreover the \<open>enabled\<close> flags have no influence at all: with the flags set to any
  values \<open>g\<close>, the outcome, the record and the rest of the world are the same.
\<close>

theorem enabled_flag_not_consulted:
  assumes ch: "channel n = ''email''"
      and us: "str_truthy (user_id n)"
      and q: "q \<in> set (preferences w)"
             "Some (pref_user_id q) = user_id n \<and> pref_channel q = ''email''"
      and uq: "\<forall>q'\<in>set (preferences w).
                 Some (pref_user_id q') = user_id n \<and> pref_channel q' = ''email'' \<longrightarrow> q' = q"
      and a: "email q = Some addr" "addr \<noteq> []"
      and h: "faults w = 0"
  shows "send_email_calls (snd (snd (send_notification p w n)))
           = send_email_calls w @ [(addr, subject n, content n)] \<and>
         send_notification p (set_enabled g w) n =
           (fst (send_notification p w n), fst (snd (send_notification p w n)),
            set_enabled g (snd (snd (send_notification p w n))))"
proof -
  let ?n1 = "n\<lparr>status := ''processing'', updated_at := now w\<rparr>"
  let ?w1 = "(db_pop w)\<lparr>notifications := update_row ?n1 (notifications w)\<rparr>"
  let ?se = "send_email p addr (subject n) (content n) None None None (db_pop ?w1)"
  have f: "find (\<lambda>q. Some (pref_user_id q) = user_id ?n1 \<and> pref_channel q = ''email'')
             (preferences ?w1) = Some q"
    using find_unique[of q "preferences w"
            "\<lambda>q. Some (pref_user_id q) = user_id n \<and> pref_channel q = ''email''", OF q uq]
    by simp
  have h1: "faults ?w1 = 0" using h faults_db_pop_le[of w] by simp
  have "channel_branch p ?w1 ?n1 = (Inr (fst ?se), snd ?se)"
    using channel_branch_email[of ?n1 ?w1 q addr p, OF _ _ f a h1] ch us by simp
  from try_healthy[OF h this]
  have "send_email_calls (snd (snd (send_notification_try p w n))) = send_email_calls (snd ?se)" .
  moreover have "send_email_calls (snd ?se) = send_email_calls w @ [(addr, subject n, content n)]"
    using send_email_fields[of p addr "subject n" "content n" None None None "db_pop ?w1"
            "fst ?se" "snd ?se"] by simp
  moreover have "send_notification p w n = send_notification_try p w n"
    using send_notification_healthy[OF h, of p n] by auto
  ultimately show ?thesis by (simp add: send_notification_set_enabled)
qed

text \<open>
  The preference \<open>pref_disabled\<close> has \<open>enabled = False\<close>; the email is sent all the same.
\<close>

theorem enabled_flag_not_consulted_witness:
  "enabled pref_disabled = False \<and> channel email_record = ''email'' \<and>
   send_email_calls (snd (snd (send_notification (EmailProvider_init smtp_settings)
       (email_world [pref_disabled]) email_record)))
     = [(''u1@example.com'', Some ''Test Notification'', ''<p>This is a test</p>'')] \<and>
   status (fst (snd (send_notification (EmailProvider_init smtp_settings)
       (email_world [pref_disabled]) email_record))) = ''sent''"
  using enabled_flag_not_consulted[of email_record pref_disabled "email_world [pref_disabled]"
          "''u1@example.com''" "EmailProvider_init smtp_settings"]
  by (simp add: faults_def email_world_def email_record_def pref_disabled_def
        smtp_settings_def default_settings_def eval_defs build_message_def)

end
